theory Spec2Isabelle
  imports Complex_Main "HOL-Library.Word"
begin

unbundle bit_operations_syntax

section \<open>The OOCSI client of \<open>oocsi.py\<close>\<close>

text \<open>
  A shallow embedding of class \<open>OOCSI\<close> (file \<open>oocsi.py\<close>): the client state is a record
  that every method takes and returns, an exception is a value of \<open>pyerr\<close>, and the
  effects on the outside world (bytes written to the socket, lines printed, user
  functions invoked) are lists that grow inside the state.
\<close>

subsection \<open>Values\<close>

text \<open>
  What \<open>json.loads\<close> produces. A JSON object is a Python dict: an association list in
  insertion order. Numbers are integers here; no method looks at a number.
\<close>

datatype json =
    JNull
  | JBool bool
  | JNum int
  | JStr string
  | JArr "json list"
  | JObj "(string \<times> json) list"

type_synonym dict = "(string \<times> json) list"

text \<open>The exceptions that occur; \<open>OSError\<close> carries its errno (\<open>e.args[0]\<close>).\<close>

datatype pyerr =
    KeyError
  | TypeError
  | ValueError
  | UnicodeError
  | NameError
  | OSError nat
  | UserError nat

subsection \<open>Python dicts\<close>

text \<open>\<open>k in d\<close>, \<open>d[k]\<close>, \<open>del d[k]\<close> and \<open>d[k] = v\<close> for a key of the dict's key type.\<close>

definition dict_has :: "'k \<Rightarrow> ('k \<times> 'v) list \<Rightarrow> bool" where
  "dict_has k d = (map_of d k \<noteq> None)"

definition dict_get :: "'k \<Rightarrow> ('k \<times> 'v) list \<Rightarrow> pyerr + 'v" where
  "dict_get k d = (case map_of d k of None \<Rightarrow> Inl KeyError | Some v \<Rightarrow> Inr v)"

definition dict_remove :: "'k \<Rightarrow> ('k \<times> 'v) list \<Rightarrow> ('k \<times> 'v) list" where
  "dict_remove k d = filter (\<lambda>p. fst p \<noteq> k) d"

definition dict_del :: "'k \<Rightarrow> ('k \<times> 'v) list \<Rightarrow> pyerr + ('k \<times> 'v) list" where
  "dict_del k d = (if dict_has k d then Inr (dict_remove k d) else Inl KeyError)"

fun dict_set :: "'k \<Rightarrow> 'v \<Rightarrow> ('k \<times> 'v) list \<Rightarrow> ('k \<times> 'v) list" where
  "dict_set k v [] = [(k, v)]"
| "dict_set k v (p # ps) = (if fst p = k then (k, v) # ps else p # dict_set k v ps)"

text \<open>
  The registries have string keys, and \<open>receive\<close> looks them up with a value taken from
  the event. A list or a dict is unhashable (\<open>TypeError\<close>); any other value that is not a
  string is hashable and equal to no string key.
\<close>

definition lookup_key :: "json \<Rightarrow> (string \<times> 'v) list \<Rightarrow> pyerr + 'v option" where
  "lookup_key k d =
     (case k of
        JStr n \<Rightarrow> Inr (map_of d n)
      | JArr _ \<Rightarrow> Inl TypeError
      | JObj _ \<Rightarrow> Inl TypeError
      | _ \<Rightarrow> Inr None)"

subsection \<open>Strings\<close>

definition startswith :: "string \<Rightarrow> string \<Rightarrow> bool" where
  "startswith s p = (take (length p) s = p)"

text \<open>\<open>s.split(c)\<close> for a one-character separator.\<close>

fun split :: "char \<Rightarrow> string \<Rightarrow> string list" where
  "split c [] = [[]]"
| "split c (x # xs) =
     (if x = c then [] # split c xs
      else (case split c xs of [] \<Rightarrow> [[x]] | w # ws \<Rightarrow> (x # w) # ws))"

definition newline :: char where
  "newline = CHR 0x0A"

text \<open>
  Whitespace as \<open>str.strip()\<close> removes it on CircuitPython: the characters 9 to 13 and
  the space.
\<close>

definition is_space :: "char \<Rightarrow> bool" where
  "is_space c = (let n = (of_char c :: nat) in (9 \<le> n \<and> n \<le> 13) \<or> n = 32)"

text \<open>\<open>s.replace(old, new, 1)\<close> for a one-character \<open>old\<close>.\<close>

fun replace1 :: "char \<Rightarrow> string \<Rightarrow> string \<Rightarrow> string" where
  "replace1 c new [] = []"
| "replace1 c new (x # xs) = (if x = c then new @ xs else x # replace1 c new xs)"

text \<open>\<open>str(d)\<close> for \<open>d = random.randrange(10)\<close>.\<close>

definition digit :: "nat \<Rightarrow> string" where
  "digit d = [char_of (48 + d mod 10)]"

subsection \<open>The environment\<close>

text \<open>
  Library and user code that the client calls and that is not part of \<open>oocsi.py\<close>:
  \<^item> \<open>json_loads\<close>, \<open>json_dumps\<close>: the \<open>json\<close> module, on a line that starts with \<open>{\<close>;
  \<^item> \<open>py_str\<close>: what \<open>str.format\<close> prints for a value that is not a string, \<open>exc_str\<close>:
    \<open>str(e)\<close> of an exception;
  \<^item> \<open>subscriber f\<close>: the user function \<open>f(sender, recipient, event)\<close>. It gets the event
    dict itself, so what it returns here is the dict as the function left it, or what it
    raised; its return value is dropped by the caller;
  \<^item> \<open>responder f\<close>: the user function \<open>f(event)\<close> registered for a call name: the dict as
    it left it together with its return value, or what it raised.
  User functions are identified by numbers. Their effect on the client is limited here
  to the event dict they are handed and to raising.
\<close>

record env =
  json_loads :: "string \<Rightarrow> pyerr + dict"
  json_dumps :: "dict \<Rightarrow> string"
  py_str :: "json \<Rightarrow> string"
  exc_str :: "pyerr \<Rightarrow> string"
  subscriber :: "nat \<Rightarrow> json \<Rightarrow> json \<Rightarrow> dict \<Rightarrow> pyerr + dict"
  responder :: "nat \<Rightarrow> dict \<Rightarrow> pyerr + dict \<times> json"

text \<open>\<open>'{0}'.format(v)\<close>.\<close>

definition format :: "env \<Rightarrow> json \<Rightarrow> string" where
  "format env v = (case v of JStr s \<Rightarrow> s | _ \<Rightarrow> py_str env v)"

subsection \<open>The socket\<close>

text \<open>
  The transport of the host platform. \<open>sock_in\<close> is what successive reads will find:
  a decodable chunk of at most 1024 bytes (the empty chunk when the peer has closed the
  connection), bytes that are not UTF-8, or an error of the socket. A read that finds
  nothing raises \<open>OSError(11)\<close> (EAGAIN, the socket is non-blocking); a read or a write
  on a closed socket raises \<open>OSError(9)\<close>. \<open>sock_out\<close> collects what \<open>sendall\<close> wrote.
\<close>

datatype chunk = Bytes string | Undecodable | Failure nat

record socket =
  sock_closed :: bool
  sock_in :: "chunk list"
  sock_out :: "string list"

text \<open>
  \<open>received_bytes = sock.recv_into(buffer); data = buffer[:received_bytes].decode('utf-8')\<close>
\<close>

definition recv_into :: "socket \<Rightarrow> (pyerr + string) \<times> socket" where
  "recv_into k =
     (if sock_closed k then (Inl (OSError 9), k)
      else (case sock_in k of
              [] \<Rightarrow> (Inl (OSError 11), k)
            | Bytes data # rest \<Rightarrow> (Inr data, k\<lparr>sock_in := rest\<rparr>)
            | Undecodable # rest \<Rightarrow> (Inl UnicodeError, k\<lparr>sock_in := rest\<rparr>)
            | Failure n # rest \<Rightarrow> (Inl (OSError n), k\<lparr>sock_in := rest\<rparr>)))"

definition sendall :: "string \<Rightarrow> socket \<Rightarrow> pyerr + socket" where
  "sendall bytes k =
     (if sock_closed k then Inl (OSError 9) else Inr (k\<lparr>sock_out := sock_out k @ [bytes]\<rparr>))"

definition close :: "socket \<Rightarrow> socket" where
  "close k = k\<lparr>sock_closed := True\<rparr>"

subsection \<open>The client state\<close>

text \<open>A callback argument: a user function, or \<open>None\<close>.\<close>

datatype callable = PyNone | PyFun nat

text \<open>
  The dict that \<open>call\<close> stores in \<open>self.calls\<close> and returns to its caller. Its keys are
  fixed; a field is \<open>None\<close> when the key is not in the dict. Times (\<open>time.time()\<close>, a
  timeout, a deadline) are real numbers; they are only added and compared.
\<close>

record call_record =
  cr_MESSAGE_HANDLE :: "string option"
  cr_MESSAGE_ID :: "string option"
  cr_expiration :: "real option"
  cr_response :: "dict option"

text \<open>A user function was called, with these arguments.\<close>

datatype invocation =
    Subscriber nat json json dict
  | Responder nat dict

text \<open>
  \<open>calls\<close> holds references: the caller of \<open>call\<close> keeps the same dict that the registry
  holds, and still has it after the registry entry is deleted. \<open>heap\<close> maps a reference
  to the dict, \<open>next_ref\<close> is the next unused reference. \<open>invoked\<close> and \<open>console\<close> record
  the user functions called and the lines printed, in order.
\<close>

record oocsi =
  handle :: string
  receivers :: "(string \<times> callable list) list"
  calls :: "(string \<times> nat) list"
  services :: "(string \<times> callable) list"
  reconnect :: bool
  connected :: bool
  server_address :: "string \<times> nat"
  sock :: socket
  heap :: "nat \<Rightarrow> call_record option"
  next_ref :: nat
  invoked :: "invocation list"
  console :: "string list"

subsection \<open>Logging and sending\<close>

definition log :: "string \<Rightarrow> oocsi \<Rightarrow> oocsi" where
  "log message s = s\<lparr>console := console s @ [''['' @ handle s @ '']: '' @ message]\<rparr>"

definition internalSend :: "string \<Rightarrow> oocsi \<Rightarrow> oocsi" where
  "internalSend msg s =
     (case sendall (msg @ [newline]) (sock s) of
        Inr k \<Rightarrow> s\<lparr>sock := k\<rparr>
      | Inl e \<Rightarrow> s\<lparr>connected := False\<rparr>)"

definition send :: "env \<Rightarrow> string \<Rightarrow> dict \<Rightarrow> oocsi \<Rightarrow> oocsi" where
  "send env channelName data s =
     internalSend (''sendraw '' @ channelName @ '' '' @ json_dumps env data) s"

subsection \<open>Dispatch\<close>

text \<open>
  The loop \<open>for x in self.receivers[recipient]: x(sender, recipient, event)\<close>. Calling
  \<open>None\<close> raises \<open>TypeError\<close>; an exception of a callback leaves the loop.
\<close>

fun call_each :: "env \<Rightarrow> json \<Rightarrow> json \<Rightarrow> callable list \<Rightarrow> dict \<Rightarrow> oocsi \<Rightarrow> pyerr option \<times> oocsi" where
  "call_each env sender recipient [] event s = (None, s)"
| "call_each env sender recipient (x # xs) event s =
     (case x of
        PyNone \<Rightarrow> (Some TypeError, s)
      | PyFun f \<Rightarrow>
          (let s' = s\<lparr>invoked := invoked s @ [Subscriber f sender recipient event]\<rparr> in
           case subscriber env f sender recipient event of
             Inl e \<Rightarrow> (Some e, s')
           | Inr event' \<Rightarrow> call_each env sender recipient xs event' s'))"

text \<open>
  \<open>if recipient in self.receivers and self.receivers[recipient] is not None\<close>: the value
  of an entry is always a list, which is not \<open>None\<close>.
\<close>

definition receiveChannelEvent :: "env \<Rightarrow> json \<Rightarrow> json \<Rightarrow> dict \<Rightarrow> oocsi \<Rightarrow> pyerr option \<times> oocsi" where
  "receiveChannelEvent env sender recipient event s =
     (case lookup_key recipient (receivers s) of
        Inl e \<Rightarrow> (Some e, s)
      | Inr None \<Rightarrow> (None, s)
      | Inr (Some fs) \<Rightarrow> call_each env sender recipient fs event s)"

text \<open>
  The first lines of \<open>receive\<close>: read \<open>sender\<close> and \<open>recipient\<close>, delete \<open>recipient\<close>,
  \<open>sender\<close>, \<open>timestamp\<close> and, when present, \<open>data\<close>.
\<close>

definition clean_up :: "dict \<Rightarrow> pyerr + json \<times> json \<times> dict" where
  "clean_up event =
     (case dict_get ''sender'' event of
        Inl e \<Rightarrow> Inl e
      | Inr sender \<Rightarrow>
     (case dict_get ''recipient'' event of
        Inl e \<Rightarrow> Inl e
      | Inr recipient \<Rightarrow>
     (case dict_del ''recipient'' event of
        Inl e \<Rightarrow> Inl e
      | Inr e1 \<Rightarrow>
     (case dict_del ''sender'' e1 of
        Inl e \<Rightarrow> Inl e
      | Inr e2 \<Rightarrow>
     (case dict_del ''timestamp'' e2 of
        Inl e \<Rightarrow> Inl e
      | Inr e3 \<Rightarrow>
          Inr (sender, recipient,
               if dict_has ''data'' e3 then dict_remove ''data'' e3 else e3))))))"

text \<open>
  The branch of a service call: \<open>service(event)\<close>, then \<open>self.send(sender, event)\<close>, then
  \<open>self.receiveChannelEvent(sender, recipient, event)\<close>, all three with the same dict.
  The value that \<open>service\<close> returns is not bound to a name.
\<close>

definition serve :: "env \<Rightarrow> callable \<Rightarrow> json \<Rightarrow> json \<Rightarrow> dict \<Rightarrow> oocsi \<Rightarrow> pyerr option \<times> oocsi" where
  "serve env service sender recipient event s =
     (case service of
        PyNone \<Rightarrow> (Some TypeError, s)
      | PyFun f \<Rightarrow>
          (let s1 = s\<lparr>invoked := invoked s @ [Responder f event]\<rparr> in
           case responder env f event of
             Inl e \<Rightarrow> (Some e, s1)
           | Inr (event', returned) \<Rightarrow>
               receiveChannelEvent env sender recipient event'
                 (send env (format env sender) event' s1)))"

text \<open>
  The branch of a response, for the reference \<open>r\<close> found in \<open>self.calls\<close> under the
  event's \<open>_MESSAGE_ID\<close>. \<open>myCall\<close> and \<open>response\<close> are the same dict, and
  \<open>response['response']\<close> is the event, so the last deletion removes \<open>_MESSAGE_ID\<close> from
  the stored payload. A reference of \<open>calls\<close> is always on the heap.
\<close>

definition respond :: "real \<Rightarrow> string \<Rightarrow> nat \<Rightarrow> dict \<Rightarrow> oocsi \<Rightarrow> pyerr option \<times> oocsi" where
  "respond now mid r event s =
     (case heap s r of
        None \<Rightarrow> (Some KeyError, s)
      | Some myCall \<Rightarrow>
     (case cr_expiration myCall of
        None \<Rightarrow> (Some KeyError, s)
      | Some expiration \<Rightarrow>
          if expiration > now then
            (let c1 = myCall\<lparr>cr_response := Some event\<rparr>;
                 c2 = c1\<lparr>cr_expiration := None\<rparr> in
             case cr_MESSAGE_ID c2 of
               None \<Rightarrow> (Some KeyError, s\<lparr>heap := (heap s)(r \<mapsto> c2)\<rparr>)
             | Some _ \<Rightarrow>
                 (let c3 = c2\<lparr>cr_MESSAGE_ID := None\<rparr>;
                      c4 = c3\<lparr>cr_response := Some (dict_remove ''_MESSAGE_ID'' event)\<rparr>
                  in (None, s\<lparr>heap := (heap s)(r \<mapsto> c4)\<rparr>)))
          else (None, s\<lparr>calls := dict_remove mid (calls s)\<rparr>)))"

text \<open>
  \<open>receive\<close>. \<open>'_MESSAGE_HANDLE' in event and event['_MESSAGE_HANDLE'] in self.services\<close>
  decides between the service branch and the rest; \<open>'_MESSAGE_ID' in event\<close> between a
  response and a plain channel event. \<open>self.calls[event['_MESSAGE_ID']]\<close> is a plain
  subscription of a dict with string keys: \<open>KeyError\<close> when the id is not a key,
  \<open>TypeError\<close> when it is unhashable.
\<close>

definition is_service_call :: "dict \<Rightarrow> oocsi \<Rightarrow> pyerr + callable option" where
  "is_service_call event s =
     (case map_of event ''_MESSAGE_HANDLE'' of
        None \<Rightarrow> Inr None
      | Some h \<Rightarrow> lookup_key h (services s))"

definition receive :: "env \<Rightarrow> real \<Rightarrow> dict \<Rightarrow> oocsi \<Rightarrow> pyerr option \<times> oocsi" where
  "receive env now event0 s =
     (case clean_up event0 of
        Inl e \<Rightarrow> (Some e, s)
      | Inr (sender, recipient, event) \<Rightarrow>
     (case is_service_call event s of
        Inl e \<Rightarrow> (Some e, s)
      | Inr (Some service) \<Rightarrow>
          serve env service sender recipient (dict_remove ''_MESSAGE_HANDLE'' event) s
      | Inr None \<Rightarrow>
     (case map_of event ''_MESSAGE_ID'' of
        Some (JStr m) \<Rightarrow>
          (case map_of (calls s) m of
             None \<Rightarrow> (Some KeyError, s)
           | Some r \<Rightarrow> respond now m r event s)
      | Some (JArr _) \<Rightarrow> (Some TypeError, s)
      | Some (JObj _) \<Rightarrow> (Some TypeError, s)
      | Some _ \<Rightarrow> (Some KeyError, s)
      | None \<Rightarrow> receiveChannelEvent env sender recipient event s)))"

subsection \<open>Reading from the socket\<close>

text \<open>The body of the loop over the lines in \<open>check\<close>; \<open>data\<close> is the whole chunk.\<close>

definition check_line :: "env \<Rightarrow> real \<Rightarrow> string \<Rightarrow> string \<Rightarrow> oocsi \<Rightarrow> pyerr option \<times> oocsi" where
  "check_line env now data line s =
     (if length data = 0 then (None, s\<lparr>sock := close (sock s), connected := False\<rparr>)
      else if startswith line ''ping'' \<or> startswith line ''.'' then (None, internalSend ''.'' s)
      else if startswith line ''{'' then
        (case json_loads env line of
           Inl e \<Rightarrow> (Some e, s)
         | Inr event \<Rightarrow> receive env now event s)
      else (None, s))"

fun check_lines :: "env \<Rightarrow> real \<Rightarrow> string \<Rightarrow> string list \<Rightarrow> oocsi \<Rightarrow> pyerr option \<times> oocsi" where
  "check_lines env now data [] s = (None, s)"
| "check_lines env now data (line # lines) s =
     (case check_line env now data line s of
        (Some e, s') \<Rightarrow> (Some e, s')
      | (None, s') \<Rightarrow> check_lines env now data lines s')"

text \<open>
  \<open>check\<close>: everything is inside \<open>try: ... except: pass\<close>, so an exception ends the step
  and what was done before it stays done. \<open>now\<close> is what \<open>time.time()\<close> returns during the
  step.
\<close>

definition check :: "env \<Rightarrow> real \<Rightarrow> oocsi \<Rightarrow> oocsi" where
  "check env now s =
     (case recv_into (sock s) of
        (Inl e, k) \<Rightarrow> s\<lparr>sock := k\<rparr>
      | (Inr data, k) \<Rightarrow>
          snd (check_lines env now data (split newline data) (s\<lparr>sock := k\<rparr>)))"

text \<open>The body of the loop over the lines in \<open>asyncCheck\<close>.\<close>

definition asyncCheck_line :: "env \<Rightarrow> real \<Rightarrow> string \<Rightarrow> oocsi \<Rightarrow> pyerr option \<times> oocsi" where
  "asyncCheck_line env now line s =
     (if startswith line ''ping'' \<or> startswith line ''.'' then (None, internalSend ''.'' s)
      else if startswith line ''{'' then
        (case json_loads env line of
           Inl e \<Rightarrow> (Some e, s)
         | Inr event \<Rightarrow> receive env now event s)
      else (None, s))"

fun asyncCheck_lines :: "env \<Rightarrow> real \<Rightarrow> string list \<Rightarrow> oocsi \<Rightarrow> pyerr option \<times> oocsi" where
  "asyncCheck_lines env now [] s = (None, s)"
| "asyncCheck_lines env now (line # lines) s =
     (case asyncCheck_line env now line s of
        (Some e, s') \<Rightarrow> (Some e, s')
      | (None, s') \<Rightarrow> asyncCheck_lines env now lines s')"

text \<open>
  The handlers of \<open>asyncCheck\<close>: \<open>OSError\<close> with errno 11 is passed over, every other
  exception reaches the outer handler, which logs it. (\<open>ConnectionError\<close> is an \<open>OSError\<close>,
  so the first handler takes it.)
\<close>

definition asyncCheck_except :: "env \<Rightarrow> pyerr \<Rightarrow> oocsi \<Rightarrow> oocsi" where
  "asyncCheck_except env e s =
     (case e of
        OSError n \<Rightarrow> if n = 11 then s else log (''Error in check: '' @ exc_str env e) s
      | _ \<Rightarrow> log (''Error in check: '' @ exc_str env e) s)"

definition asyncCheck :: "env \<Rightarrow> real \<Rightarrow> oocsi \<Rightarrow> oocsi" where
  "asyncCheck env now s =
     (case recv_into (sock s) of
        (Inl e, k) \<Rightarrow> asyncCheck_except env e (s\<lparr>sock := k\<rparr>)
      | (Inr data, k) \<Rightarrow>
          if length data = 0 then s\<lparr>sock := close k, connected := False\<rparr>
          else (case asyncCheck_lines env now (split newline data) (s\<lparr>sock := k\<rparr>) of
                  (None, s') \<Rightarrow> s'
                | (Some e, s') \<Rightarrow> asyncCheck_except env e s'))"

subsection \<open>Subscriptions, services and calls\<close>

definition subscribe :: "string \<Rightarrow> callable \<Rightarrow> oocsi \<Rightarrow> oocsi" where
  "subscribe channelName f s =
     (let s1 =
        (case map_of (receivers s) channelName of
           Some fs \<Rightarrow> s\<lparr>receivers := dict_set channelName (fs @ [f]) (receivers s)\<rparr>
         | None \<Rightarrow> s\<lparr>receivers := dict_set channelName [f] (receivers s)\<rparr>)
      in log (''subscribed to '' @ channelName)
           (internalSend (''subscribe '' @ channelName) s1))"

definition unsubscribe :: "string \<Rightarrow> oocsi \<Rightarrow> pyerr option \<times> oocsi" where
  "unsubscribe channelName s =
     (case dict_del channelName (receivers s) of
        Inl e \<Rightarrow> (Some e, s)
      | Inr d \<Rightarrow>
          (None, log (''unsubscribed from '' @ channelName)
                   (internalSend (''unsubscribe '' @ channelName) (s\<lparr>receivers := d\<rparr>))))"

definition register :: "string \<Rightarrow> string \<Rightarrow> callable \<Rightarrow> oocsi \<Rightarrow> oocsi" where
  "register channelName callName callback s =
     log (''registered responder on '' @ channelName @ '' for '' @ callName)
       (internalSend (''subscribe '' @ channelName)
          (s\<lparr>services := dict_set callName callback (services s)\<rparr>))"

definition stop :: "oocsi \<Rightarrow> oocsi" where
  "stop s =
     (let s1 = internalSend ''quit'' (s\<lparr>reconnect := False\<rparr>)
      in s1\<lparr>sock := close (sock s1), connected := False\<rparr>)"

text \<open>\<open>f'{byte:02x}'\<close>.\<close>

definition hex_digit :: "nat \<Rightarrow> char" where
  "hex_digit n = ''0123456789abcdef'' ! (n mod 16)"

definition hex2 :: "8 word \<Rightarrow> string" where
  "hex2 byte = [hex_digit (unat byte div 16), hex_digit (unat byte mod 16)]"

text \<open>\<open>uuid4\<close>; \<open>rnd i\<close> is the \<open>i\<close>-th \<open>random.getrandbits(8)\<close>.\<close>

definition uuid4 :: "(nat \<Rightarrow> 8 word) \<Rightarrow> string" where
  "uuid4 rnd =
     (let random_bytes = map rnd [0..<16];
          bytes6 = random_bytes[6 := (random_bytes ! 6 AND 0x0F) OR 0x40];
          bytes8 = bytes6[8 := (bytes6 ! 8 AND 0x3F) OR 0x80];
          hex_string = concat (map hex2 bytes8)
      in take 8 hex_string @ ''-'' @ take 4 (drop 8 hex_string) @ ''-'' @
         take 4 (drop 12 hex_string) @ ''-'' @ take 4 (drop 16 hex_string) @ ''-'' @
         take 12 (drop 20 hex_string))"

text \<open>
  \<open>call\<close> returns the dict it stored (here: its reference). The second component is the
  caller's \<open>data\<close> after the call: \<open>call\<close> assigns to two keys of the dict it was given.
\<close>

definition call :: "env \<Rightarrow> real \<Rightarrow> (nat \<Rightarrow> 8 word) \<Rightarrow> string \<Rightarrow> string \<Rightarrow> dict \<Rightarrow> real \<Rightarrow> oocsi \<Rightarrow> nat \<times> dict \<times> oocsi" where
  "call env now rnd channelName callName data timeout s =
     (let data1 = dict_set ''_MESSAGE_HANDLE'' (JStr callName) data;
          mid = uuid4 rnd;
          data2 = dict_set ''_MESSAGE_ID'' (JStr mid) data1;
          r = next_ref s;
          s1 = s\<lparr>heap := (heap s)(r \<mapsto>
                     \<lparr>cr_MESSAGE_HANDLE = Some callName, cr_MESSAGE_ID = Some mid,
                      cr_expiration = Some (now + timeout), cr_response = None\<rparr>),
                  next_ref := Suc r,
                  calls := dict_set mid r (calls s)\<rparr>
      in (r, data2, send env channelName data2 s1))"

subsection \<open>Construction\<close>

text \<open>\<open>if handle is None or len(handle.strip()) == 0: handle = "OOCSIClient_####"\<close>\<close>

definition default_handle :: "string option \<Rightarrow> string" where
  "default_handle h =
     (case h of
        None \<Rightarrow> ''OOCSIClient_####''
      | Some n \<Rightarrow> if list_all is_space n then ''OOCSIClient_####'' else n)"

text \<open>
  \<open>while "#" in handle: handle = handle.replace("#", str(random.randrange(10)), 1)\<close>;
  \<open>rnd i\<close> is the \<open>i\<close>-th \<open>random.randrange(10)\<close>.
\<close>

function fill_handle :: "(nat \<Rightarrow> nat) \<Rightarrow> nat \<Rightarrow> string \<Rightarrow> string" where
  "fill_handle rnd i h =
     (if CHR ''#'' \<in> set h
      then fill_handle rnd (Suc i) (replace1 CHR ''#'' (digit (rnd i)) h)
      else h)"
  by pat_completeness auto
termination
proof (relation "measure (\<lambda>(rnd, i, h). count_list h CHR ''#'')")
  show "wf (measure (\<lambda>(rnd, i, h). count_list h CHR ''#''))"
    by simp
next
  fix rnd :: "nat \<Rightarrow> nat" and i :: nat and h :: string
  assume mem: "CHR ''#'' \<in> set h"
  have neq: "char_of (48 + rnd i mod 10) \<noteq> CHR ''#''"
  proof
    assume "char_of (48 + rnd i mod 10) = CHR ''#''"
    then have "(of_char (char_of (48 + rnd i mod 10)) :: nat) = of_char CHR ''#''"
      by simp
    then show False
      by simp
  qed
  have "CHR ''#'' \<in> set w \<Longrightarrow>
        count_list (replace1 CHR ''#'' (digit (rnd i)) w) CHR ''#'' < count_list w CHR ''#''" for w
    using neq by (induction w) (auto simp: digit_def)
  with mem show "((rnd, Suc i, replace1 CHR ''#'' (digit (rnd i)) h), (rnd, i, h))
        \<in> measure (\<lambda>(rnd, i, h). count_list h CHR ''#'')"
    by simp
qed

declare fill_handle.simps [simp del]

text \<open>
  \<open>init\<close>. \<open>conn\<close> is what \<open>pool.socket\<close> and \<open>sock.connect\<close> give: the connected socket, or
  an exception. The socket is still blocking when the answer to the handshake is read:
  with nothing to read, \<open>init\<close> does not return (\<open>None\<close>). When the read raises, \<open>data\<close>
  is unbound and the \<open>NameError\<close> of the next line is swallowed by the outer handler.
\<close>

definition init :: "pyerr + socket \<Rightarrow> oocsi \<Rightarrow> oocsi option" where
  "init conn s =
     (case conn of
        Inl e \<Rightarrow> Some s
      | Inr k \<Rightarrow>
          (let s1 = internalSend (handle s @ ''(JSON)'') (s\<lparr>sock := k\<rparr>) in
           if \<not> sock_closed (sock s1) \<and> sock_in (sock s1) = [] then None
           else
             (case recv_into (sock s1) of
                (Inl e, k') \<Rightarrow> Some (s1\<lparr>sock := k'\<rparr>)
              | (Inr data, k') \<Rightarrow>
                  (let s2 = s1\<lparr>sock := k'\<rparr> in
                   if startswith data ''{'' then
                     Some ((fold (\<lambda>channelName. internalSend (''subscribe '' @ channelName))
                              (map fst (receivers s2))
                              (log ''connection established'' s2))\<lparr>connected := True\<rparr>)
                   else if startswith data ''error'' then
                     Some ((log data s2)\<lparr>reconnect := False\<rparr>)
                   else Some s2))))"

text \<open>\<open>while not self.connected: time.sleep(0.2)\<close>: nothing changes the flag while it waits.\<close>

partial_function (option) wait_connected :: "oocsi \<Rightarrow> oocsi option" where
  "wait_connected s = (if connected s then Some s else wait_connected s)"

text \<open>
  \<open>__init__\<close>. Before \<open>init\<close> the object has no socket; \<open>no_socket\<close>, on which every
  operation raises, stands for that.
\<close>

definition no_socket :: socket where
  "no_socket = \<lparr>sock_closed = True, sock_in = [], sock_out = []\<rparr>"

definition OOCSI :: "env \<Rightarrow> (nat \<Rightarrow> nat) \<Rightarrow> pyerr + socket \<Rightarrow> string option \<Rightarrow> string \<Rightarrow> nat \<Rightarrow> callable \<Rightarrow> oocsi option" where
  "OOCSI env rnd conn handle0 host port callback =
     (let h = fill_handle rnd 0 (default_handle handle0);
          s = \<lparr>handle = h, receivers = [(h, [callback])], calls = [], services = [],
               reconnect = True, connected = False, server_address = (host, port),
               sock = no_socket, heap = Map.empty, next_ref = 0, invoked = [], console = []\<rparr>;
          s1 = log (''connecting to '' @ host @ '' port '' @ py_str env (JNum (int port))) s
      in case init conn s1 of None \<Rightarrow> None | Some s2 \<Rightarrow> wait_connected s2)"

subsection \<open>Sequences of operations\<close>

text \<open>
  The methods a program calls on a constructed client, and a run of them. None of them
  opens a new socket. (\<open>callAndWait\<close> is \<open>call\<close> followed by a loop that sleeps and looks at
  the dict of the call; it changes nothing of the client.)
\<close>

datatype operation =
    Check real
  | AsyncCheck real
  | Send string dict
  | Call real "nat \<Rightarrow> 8 word" string string dict real
  | Subscribe string callable
  | Unsubscribe string
  | Register string string callable
  | Stop

fun perform :: "env \<Rightarrow> operation \<Rightarrow> oocsi \<Rightarrow> oocsi" where
  "perform env (Check now) s = check env now s"
| "perform env (AsyncCheck now) s = asyncCheck env now s"
| "perform env (Send channelName data) s = send env channelName data s"
| "perform env (Call now rnd channelName callName data timeout) s =
     snd (snd (call env now rnd channelName callName data timeout s))"
| "perform env (Subscribe channelName f) s = subscribe channelName f s"
| "perform env (Unsubscribe channelName) s = snd (unsubscribe channelName s)"
| "perform env (Register channelName callName callback) s =
     register channelName callName callback s"
| "perform env Stop s = stop s"

definition run :: "env \<Rightarrow> operation list \<Rightarrow> oocsi \<Rightarrow> oocsi" where
  "run env ops s = fold (perform env) ops s"

subsection \<open>Notions of the specification\<close>

text \<open>
  The payload of an event: the event without the fields \<open>sender\<close>, \<open>recipient\<close>,
  \<open>timestamp\<close> and \<open>data\<close>. The subscribers of a channel: the list of its entry, empty
  when it has none.
\<close>

definition strip_control :: "dict \<Rightarrow> dict" where
  "strip_control event =
     filter (\<lambda>p. fst p \<noteq> ''recipient'' \<and> fst p \<noteq> ''sender''
                 \<and> fst p \<noteq> ''timestamp'' \<and> fst p \<noteq> ''data'') event"

definition subscribers :: "string \<Rightarrow> oocsi \<Rightarrow> callable list" where
  "subscribers channelName s =
     (case map_of (receivers s) channelName of None \<Rightarrow> [] | Some fs \<Rightarrow> fs)"

text \<open>
  No dict of a call holds a deadline and a response at once; and a step from \<open>s\<close> to
  \<open>s'\<close> leaves the dicts of the calls alone or leaves them without a deadline or without
  a response.
\<close>

definition no_late_response :: "oocsi \<Rightarrow> bool" where
  "no_late_response s =
     (\<forall>r c. heap s r = Some c \<longrightarrow> cr_response c \<noteq> None \<longrightarrow> cr_expiration c = None)"

definition keeps_records :: "oocsi \<Rightarrow> oocsi \<Rightarrow> bool" where
  "keeps_records s s' =
     (\<forall>r c. heap s' r = Some c \<longrightarrow>
        heap s r = Some c \<or> cr_expiration c = None \<or> cr_response c = None)"

text \<open>
  A step from \<open>s\<close> to \<open>s'\<close> leaves the socket open or closed as it was, and what was
  written to it is still there, followed by what the step wrote.
\<close>

definition sends_only :: "oocsi \<Rightarrow> oocsi \<Rightarrow> bool" where
  "sends_only s s' =
     (sock_closed (sock s') = sock_closed (sock s)
      \<and> (\<exists>sent. sock_out (sock s') = sock_out (sock s) @ sent))"

subsection \<open>An example client\<close>

text \<open>
  A client and an environment on which the theorems below are run: three lines as the
  server sends them, \<open>json.loads\<close> and \<open>json.dumps\<close> at the dicts that occur, subscribers
  that leave the event as it is, and a responder that leaves the event as it is and
  returns the dict \<open>{"y": 2}\<close>.
\<close>

definition line_x :: string where
  \<open>line_x = ''{"sender":"s","recipient":"channel","timestamp":0,"x":1}''\<close>

definition event_x :: dict where
  "event_x = [(''sender'', JStr ''s''), (''recipient'', JStr ''channel''),
              (''timestamp'', JNum 0), (''x'', JNum 1)]"

definition line_reply :: string where
  \<open>line_reply = ''{"sender":"s","recipient":"me","timestamp":0,"_MESSAGE_ID":"7","z":3}''\<close>

definition event_reply :: dict where
  "event_reply = [(''sender'', JStr ''s''), (''recipient'', JStr ''me''),
                  (''timestamp'', JNum 0), (''_MESSAGE_ID'', JStr ''7''), (''z'', JNum 3)]"

definition line_add :: string where
  \<open>line_add = ''{"sender":"s","recipient":"channel","timestamp":0,"_MESSAGE_HANDLE":"add","_MESSAGE_ID":"7","x":1}''\<close>

definition event_add :: dict where
  "event_add = [(''sender'', JStr ''s''), (''recipient'', JStr ''channel''),
                (''timestamp'', JNum 0), (''_MESSAGE_HANDLE'', JStr ''add''),
                (''_MESSAGE_ID'', JStr ''7''), (''x'', JNum 1)]"

definition example_loads :: "string \<Rightarrow> pyerr + dict" where
  "example_loads line =
     (if line = line_x then Inr event_x
      else if line = line_reply then Inr event_reply
      else if line = line_add then Inr event_add
      else Inl ValueError)"

definition example_dumps :: "dict \<Rightarrow> string" where
  \<open>example_dumps d =
     (if d = [(''_MESSAGE_ID'', JStr ''7''), (''x'', JNum 1)] then ''{"_MESSAGE_ID": "7", "x": 1}''
      else if d = [(''y'', JNum 2)] then ''{"y": 2}''
      else ''{}'')\<close>

definition example_env :: env where
  "example_env =
     \<lparr>json_loads = example_loads, json_dumps = example_dumps,
      py_str = (\<lambda>v. if v = JNum 4444 then ''4444'' else ''None''),
      exc_str = (\<lambda>e. ''error''),
      subscriber = (\<lambda>f sender recipient event. Inr event),
      responder = (\<lambda>f event. Inr (event, JObj [(''y'', JNum 2)]))\<rparr>"

definition example_client :: oocsi where
  "example_client =
     \<lparr>handle = ''me'',
      receivers = [(''me'', [PyNone]), (''channel'', [PyFun 1, PyFun 2])],
      calls = [], services = [(''add'', PyFun 5)],
      reconnect = True, connected = True, server_address = (''localhost'', 4444),
      sock = \<lparr>sock_closed = False, sock_in = [], sock_out = []\<rparr>,
      heap = Map.empty, next_ref = 0, invoked = [], console = []\<rparr>"

text \<open>The same client with one call pending: id \<open>7\<close>, deadline 11.\<close>

definition example_pending :: call_record where
  "example_pending =
     \<lparr>cr_MESSAGE_HANDLE = Some ''add'', cr_MESSAGE_ID = Some ''7'',
      cr_expiration = Some 11, cr_response = None\<rparr>"

definition example_caller :: oocsi where
  "example_caller =
     example_client\<lparr>calls := [(''7'', 0)], heap := [0 \<mapsto> example_pending], next_ref := 1\<rparr>"

text \<open>The client that the constructor returns for the handle \<open>Dev_##\<close> and the digits 3, 4.\<close>

definition example_constructed :: oocsi where
  "example_constructed =
     \<lparr>handle = ''Dev_34'', receivers = [(''Dev_34'', [PyNone])], calls = [], services = [],
      reconnect = True, connected = True, server_address = (''localhost'', 4444),
      sock = \<lparr>sock_closed = False, sock_in = [],
               sock_out = [''Dev_34(JSON)'' @ [newline], ''subscribe Dev_34'' @ [newline]]\<rparr>,
      heap = Map.empty, next_ref = 0, invoked = [],
      console = [''[Dev_34]: connecting to localhost port 4444'',
                 ''[Dev_34]: connection established'']\<rparr>"

section \<open>Properties\<close>

subsection \<open>Auxiliary facts\<close>

lemma map_of_dict_remove:
  "map_of (dict_remove k d) k' = (if k' = k then None else map_of d k')"
  by (induction d) (auto simp: dict_remove_def)

lemma clean_up_missing:
  "\<not> dict_has ''sender'' event \<or> \<not> dict_has ''recipient'' event \<or> \<not> dict_has ''timestamp'' event
   \<Longrightarrow> clean_up event = Inl KeyError"
  by (auto simp: clean_up_def dict_get_def dict_del_def dict_has_def map_of_dict_remove
      split: option.splits sum.splits)

lemma split_nonempty: "line \<in> set (split c data) \<Longrightarrow> line \<noteq> [] \<Longrightarrow> data \<noteq> []"
  by (cases data) auto

lemma startswith_nonempty: "startswith line p \<Longrightarrow> p \<noteq> [] \<Longrightarrow> line \<noteq> []"
  by (auto simp: startswith_def)

lemma closed_internalSend:
  "sock_closed (sock s) \<Longrightarrow>
   sock_closed (sock (internalSend msg s)) \<and> \<not> connected (internalSend msg s)
   \<and> invoked (internalSend msg s) = invoked s"
  by (simp add: internalSend_def sendall_def)

lemma closed_perform:
  assumes "sock_closed (sock s)" and "\<not> connected s"
  shows "sock_closed (sock (perform env op s)) \<and> \<not> connected (perform env op s)
         \<and> invoked (perform env op s) = invoked s"
proof (cases op)
  case (Check now)
  with assms show ?thesis by (simp add: check_def recv_into_def)
next
  case (AsyncCheck now)
  with assms show ?thesis
    by (simp add: asyncCheck_def recv_into_def asyncCheck_except_def log_def)
next
  case (Send c d)
  with assms show ?thesis by (simp add: send_def closed_internalSend)
next
  case (Call now rnd c n d t)
  with assms show ?thesis
    by (simp add: call_def Let_def send_def internalSend_def sendall_def)
next
  case (Subscribe c f)
  with assms show ?thesis
    by (simp add: subscribe_def Let_def log_def internalSend_def sendall_def split: option.splits)
next
  case (Unsubscribe c)
  with assms show ?thesis
    by (simp add: unsubscribe_def log_def internalSend_def sendall_def split: sum.splits)
next
  case (Register c n f)
  with assms show ?thesis
    by (simp add: register_def log_def internalSend_def sendall_def)
next
  case Stop
  with assms show ?thesis
    by (simp add: stop_def Let_def close_def internalSend_def sendall_def)
qed

lemma closed_run:
  "sock_closed (sock s) \<Longrightarrow> \<not> connected s \<Longrightarrow>
   sock_closed (sock (run env ops s)) \<and> \<not> connected (run env ops s)
   \<and> invoked (run env ops s) = invoked s"
proof (induction ops arbitrary: s)
  case Nil
  then show ?case by (simp add: run_def)
next
  case (Cons op ops)
  from closed_perform [OF Cons.prems, of env op]
  have a: "sock_closed (sock (perform env op s))" and b: "\<not> connected (perform env op s)"
    and c: "invoked (perform env op s) = invoked s"
    by simp_all
  from Cons.IH [OF a b] c show ?case
    by (simp add: run_def)
qed

lemma check_zero:
  assumes "\<not> sock_closed (sock s)" and "sock_in (sock s) = Bytes [] # rest"
  shows "check env now s = s\<lparr>sock := (sock s)\<lparr>sock_in := rest, sock_closed := True\<rparr>, connected := False\<rparr>"
  using assms by (simp add: check_def recv_into_def check_line_def close_def)

lemma asyncCheck_zero:
  assumes "\<not> sock_closed (sock s)" and "sock_in (sock s) = Bytes [] # rest"
  shows "asyncCheck env now s = s\<lparr>sock := (sock s)\<lparr>sock_in := rest, sock_closed := True\<rparr>, connected := False\<rparr>"
  using assms by (simp add: asyncCheck_def recv_into_def close_def)

lemma map_of_dict_set:
  "map_of (dict_set k v d) k' = (if k' = k then Some v else map_of d k')"
  by (induction d) auto

lemma clean_up_ok:
  assumes "map_of event ''sender'' = Some sender"
    and "map_of event ''recipient'' = Some recipient"
    and "dict_has ''timestamp'' event"
  shows "clean_up event = Inr (sender, recipient, strip_control event)"
proof -
  have "dict_remove ''data'' (dict_remove ''timestamp'' (dict_remove ''sender''
          (dict_remove ''recipient'' event))) = strip_control event"
    by (simp add: dict_remove_def strip_control_def conj_commute conj_left_commute)
  moreover have "\<not> dict_has ''data'' d \<Longrightarrow> dict_remove ''data'' d = d" for d :: dict
    by (induction d) (auto simp: dict_has_def dict_remove_def)
  ultimately show ?thesis
    using assms
    by (auto simp: clean_up_def dict_get_def dict_del_def dict_has_def map_of_dict_remove)
qed

lemma map_of_strip_control:
  "map_of (strip_control event) k =
     (if k = ''recipient'' \<or> k = ''sender'' \<or> k = ''timestamp'' \<or> k = ''data'' then None
      else map_of event k)"
  by (induction event) (auto simp: strip_control_def)

lemma call_each_ok:
  "\<forall>f\<in>set ids. subscriber env f sender recipient event = Inr event \<Longrightarrow>
   call_each env sender recipient (map PyFun ids) event s =
     (None, s\<lparr>invoked := invoked s @ map (\<lambda>f. Subscriber f sender recipient event) ids\<rparr>)"
  by (induction ids arbitrary: s) simp_all

lemma receive_plain:
  assumes "map_of event ''sender'' = Some sender"
    and "map_of event ''recipient'' = Some recipient"
    and "dict_has ''timestamp'' event"
    and "\<not> dict_has ''_MESSAGE_HANDLE'' event"
    and "\<not> dict_has ''_MESSAGE_ID'' event"
  shows "receive env now event s = receiveChannelEvent env sender recipient (strip_control event) s"
  using assms clean_up_ok [OF assms(1-3)]
  by (simp add: receive_def is_service_call_def map_of_strip_control dict_has_def)

lemma heap_internalSend: "heap (internalSend msg s) = heap s"
  by (simp add: internalSend_def sendall_def)

lemma heap_log: "heap (log msg s) = heap s"
  by (simp add: log_def)

lemma receivers_internalSend: "receivers (internalSend msg s) = receivers s"
  by (simp add: internalSend_def sendall_def)

lemma handle_internalSend: "handle (internalSend msg s) = handle s"
  by (simp add: internalSend_def sendall_def)

lemma fold_internalSend:
  "receivers (fold (\<lambda>c. internalSend (f c)) cs s) = receivers s
   \<and> handle (fold (\<lambda>c. internalSend (f c)) cs s) = handle s
   \<and> heap (fold (\<lambda>c. internalSend (f c)) cs s) = heap s"
  by (induction cs arbitrary: s)
    (simp_all add: receivers_internalSend handle_internalSend heap_internalSend)

lemma init_keeps:
  "init conn s = Some s' \<Longrightarrow>
   receivers s' = receivers s \<and> handle s' = handle s \<and> heap s' = heap s"
  by (auto simp: init_def Let_def log_def receivers_internalSend handle_internalSend
      heap_internalSend fold_internalSend split: sum.splits if_splits prod.splits)

lemma wait_connected_Some: "wait_connected s = Some s' \<Longrightarrow> s' = s \<and> connected s"
proof (induction rule: wait_connected.raw_induct [rotated 1, consumes 1])
  case (1 wait s s')
  then show ?case
    by (auto split: if_splits)
qed

text \<open>What the constructor returns.\<close>

lemma constructed:
  assumes "OOCSI env rnd conn handle0 host port callback = Some s"
  shows "receivers s = [(handle s, [callback])] \<and> heap s = Map.empty \<and> connected s"
proof -
  let ?h = "fill_handle rnd 0 (default_handle handle0)"
  from assms obtain s2 where i: "init conn
      (log (''connecting to '' @ host @ '' port '' @ py_str env (JNum (int port)))
        \<lparr>handle = ?h, receivers = [(?h, [callback])], calls = [], services = [],
         reconnect = True, connected = False, server_address = (host, port),
         sock = no_socket, heap = Map.empty, next_ref = 0, invoked = [], console = []\<rparr>)
      = Some s2" and w: "wait_connected s2 = Some s"
    by (auto simp: OOCSI_def Let_def split: option.splits)
  from wait_connected_Some [OF w] have "s = s2" and "connected s"
    by simp_all
  with init_keeps [OF i] show ?thesis
    by (simp add: log_def)
qed

subsection \<open>Events without the required fields\<close>

text \<open>
  C10. An event that lacks \<open>sender\<close>, \<open>recipient\<close> or \<open>timestamp\<close> makes \<open>receive\<close> raise
  \<open>KeyError\<close> in its first lines: the client is as before, so no callback and no
  responder has run and no pending call has changed.
\<close>

theorem receive_missing_field:
  assumes "\<not> dict_has ''sender'' event \<or> \<not> dict_has ''recipient'' event
           \<or> \<not> dict_has ''timestamp'' event"
  shows "receive env now event s = (Some KeyError, s)"
  using clean_up_missing [OF assms] by (simp add: receive_def)

theorem receive_missing_field_witness:
  "\<not> dict_has ''sender'' [(''recipient'', JStr ''channel''), (''timestamp'', JNum 0)]
   \<and> receive example_env 0 [(''recipient'', JStr ''channel''), (''timestamp'', JNum 0)]
         example_client = (Some KeyError, example_client)"
  using receive_missing_field
    [of "[(''recipient'', JStr ''channel''), (''timestamp'', JNum 0)]" example_env 0 example_client]
  by (simp add: dict_has_def)

subsection \<open>Keep-alive lines\<close>

lemma sends_only_refl: "sends_only s s"
  by (simp add: sends_only_def)

lemma sends_only_sock: "sock s' = sock s \<Longrightarrow> sends_only s s'"
  by (simp add: sends_only_def)

lemma sends_only_trans: "sends_only s s' \<Longrightarrow> sends_only s' s'' \<Longrightarrow> sends_only s s''"
  by (auto simp: sends_only_def)

lemma sends_only_internalSend: "sends_only s (internalSend msg s)"
  by (simp add: sends_only_def internalSend_def sendall_def)

lemma sock_call_each: "sock (snd (call_each env a b fs ev s)) = sock s"
  by (induction fs arbitrary: ev s) (auto simp: Let_def split: callable.splits sum.splits)

lemma sock_receiveChannelEvent: "sock (snd (receiveChannelEvent env a b ev s)) = sock s"
  by (simp add: receiveChannelEvent_def sock_call_each split: sum.splits option.splits)

lemma sends_only_serve: "sends_only s (snd (serve env f a b ev s))"
proof (cases f)
  case PyNone
  then show ?thesis by (simp add: serve_def sends_only_refl)
next
  case (PyFun g)
  let ?s1 = "s\<lparr>invoked := invoked s @ [Responder g ev]\<rparr>"
  show ?thesis
  proof (cases "responder env g ev")
    case (Inl e)
    with PyFun show ?thesis by (simp add: serve_def Let_def sends_only_def)
  next
    case (Inr p)
    obtain ev' ret where p: "p = (ev', ret)" by (cases p)
    have "sends_only s ?s1"
      by (simp add: sends_only_def)
    moreover have "sends_only ?s1 (send env (format env a) ev' ?s1)"
      unfolding send_def by (rule sends_only_internalSend)
    moreover have "sends_only (send env (format env a) ev' ?s1)
        (snd (receiveChannelEvent env a b ev' (send env (format env a) ev' ?s1)))"
      by (rule sends_only_sock) (rule sock_receiveChannelEvent)
    ultimately show ?thesis
      using PyFun Inr p by (auto simp: serve_def Let_def intro: sends_only_trans)
  qed
qed

lemma sock_respond: "sock (snd (respond now m r ev s)) = sock s"
  by (simp add: respond_def Let_def split: option.splits)

lemma sends_only_receive: "sends_only s (snd (receive env now ev s))"
  by (simp add: receive_def sends_only_refl sends_only_serve sends_only_sock
      sock_respond sock_receiveChannelEvent
      split: sum.splits option.splits json.splits prod.splits)

lemma check_line_async:
  "data \<noteq> [] \<Longrightarrow> check_line env now data line s = asyncCheck_line env now line s"
  by (simp add: check_line_def asyncCheck_line_def)

lemma check_lines_async:
  "data \<noteq> [] \<Longrightarrow> check_lines env now data lines s = asyncCheck_lines env now lines s"
  by (induction lines arbitrary: s)
    (simp_all add: check_line_async split: prod.splits option.splits)

lemma sends_only_asyncCheck_line: "sends_only s (snd (asyncCheck_line env now line s))"
  by (simp add: asyncCheck_line_def sends_only_refl sends_only_receive
      sends_only_internalSend split: sum.splits)

lemma sends_only_asyncCheck_lines: "sends_only s (snd (asyncCheck_lines env now lines s))"
proof (induction lines arbitrary: s)
  case Nil
  show ?case by (simp add: sends_only_refl)
next
  case (Cons line lines)
  obtain out s' where step: "asyncCheck_line env now line s = (out, s')"
    by (cases "asyncCheck_line env now line s")
  with sends_only_asyncCheck_line [of s env now line] have k: "sends_only s s'"
    by simp
  show ?case
  proof (cases out)
    case None
    with step Cons.IH [of s'] k show ?thesis
      by (auto intro: sends_only_trans)
  next
    case (Some e)
    with step k show ?thesis by simp
  qed
qed

lemma asyncCheck_lines_append:
  "asyncCheck_lines env now pre s = (None, s1) \<Longrightarrow>
   asyncCheck_lines env now (pre @ lines) s = asyncCheck_lines env now lines s1"
  by (induction pre arbitrary: s) (auto split: prod.splits option.splits)

lemma sock_asyncCheck_except: "sock (asyncCheck_except env e s) = sock s"
  by (simp add: asyncCheck_except_def log_def split: pyerr.splits)

lemma recv_into_data:
  "recv_into k0 = (Inr data, k) \<Longrightarrow> \<not> sock_closed k \<and> sock_out k = sock_out k0"
  by (auto simp: recv_into_def split: if_splits list.splits chunk.splits)


lemma keep_alive_body:
  assumes "startswith line ''ping'' \<or> startswith line ''.''"
  shows "asyncCheck_line env now line s = (None, internalSend ''.'' s)"
  using assms by (simp add: asyncCheck_line_def)

lemma split_not_Nil: "split c v \<noteq> []"
  by (induction v) (auto split: list.splits)

lemma split_no_separator: "c \<notin> set w \<Longrightarrow> split c w = [w]"
  by (induction w) auto

lemma split_at_separator: "c \<notin> set w \<Longrightarrow> split c (w @ c # v) = w # split c v"
  using split_not_Nil [of c v] by (induction w) (auto split: list.splits)

text \<open>
  C6. A step of \<open>check\<close> or of \<open>asyncCheck\<close> reads a chunk, and one of its lines starts
  with \<open>ping\<close> or with \<open>.\<close>. When the lines before it have been processed without an
  exception, leaving the client as \<open>s1\<close>, the step does \<open>internalSend('.')\<close> for the line
  and nothing else, and goes on with the lines after it: the socket is open, so \<open>.\<close> and
  a newline are written, they are in what the step has written when it returns, and no
  user function is called for the line.
\<close>

theorem keep_alive_reply:
  assumes read: "recv_into (sock s) = (Inr data, k)"
    and lines: "split newline data = pre @ line # post"
    and ka: "startswith line ''ping'' \<or> startswith line ''.''"
    and pre: "check_lines env now data pre (s\<lparr>sock := k\<rparr>) = (None, s1)"
  shows "check env now s = snd (check_lines env now data post (internalSend ''.'' s1))
       \<and> asyncCheck env now s =
           (case asyncCheck_lines env now post (internalSend ''.'' s1) of
              (None, s') \<Rightarrow> s'
            | (Some e, s') \<Rightarrow> asyncCheck_except env e s')
       \<and> internalSend ''.'' s1 =
           s1\<lparr>sock := (sock s1)\<lparr>sock_out := sock_out (sock s1) @ [''.'' @ [newline]]\<rparr>\<rparr>
       \<and> invoked (internalSend ''.'' s1) = invoked s1
       \<and> (\<exists>later. sock_out (sock (check env now s)) =
             sock_out (sock s1) @ [''.'' @ [newline]] @ later)
       \<and> (\<exists>later. sock_out (sock (asyncCheck env now s)) =
             sock_out (sock s1) @ [''.'' @ [newline]] @ later)"
proof -
  let ?t = "internalSend ''.'' s1"
  from ka have "line \<noteq> []"
    by (auto dest: startswith_nonempty)
  moreover from lines have "line \<in> set (split newline data)"
    by simp
  ultimately have data: "data \<noteq> []"
    by (rule split_nonempty [rotated])
  from pre data have apre: "asyncCheck_lines env now pre (s\<lparr>sock := k\<rparr>) = (None, s1)"
    by (simp add: check_lines_async)
  have rest: "asyncCheck_lines env now (split newline data) (s\<lparr>sock := k\<rparr>) =
      asyncCheck_lines env now post ?t"
    unfolding lines using asyncCheck_lines_append [OF apre, of "line # post"] keep_alive_body [OF ka]
    by simp
  have c: "check env now s = snd (check_lines env now data post ?t)"
    using read data rest by (simp add: check_def check_lines_async)
  have a: "asyncCheck env now s =
           (case asyncCheck_lines env now post ?t of
              (None, s') \<Rightarrow> s'
            | (Some e, s') \<Rightarrow> asyncCheck_except env e s')"
    using read data rest by (simp add: asyncCheck_def)
  from sends_only_asyncCheck_lines [of "s\<lparr>sock := k\<rparr>" env now pre] apre recv_into_data [OF read]
  have "\<not> sock_closed (sock s1)"
    by (simp add: sends_only_def)
  then have i: "?t = s1\<lparr>sock := (sock s1)\<lparr>sock_out := sock_out (sock s1) @ [''.'' @ [newline]]\<rparr>\<rparr>"
    by (simp add: internalSend_def sendall_def)
  then have out: "sock_out (sock ?t) = sock_out (sock s1) @ [''.'' @ [newline]]"
    by simp
  obtain o' s' where run: "asyncCheck_lines env now post ?t = (o', s')"
    by (cases "asyncCheck_lines env now post ?t")
  with sends_only_asyncCheck_lines [of ?t env now post]
  obtain later where later: "sock_out (sock s') = sock_out (sock ?t) @ later"
    by (auto simp: sends_only_def)
  have "sock (check env now s) = sock s'"
    using c run data by (simp add: check_lines_async)
  with later out have oc: "\<exists>later. sock_out (sock (check env now s)) =
             sock_out (sock s1) @ [''.'' @ [newline]] @ later"
    by simp
  have "sock (asyncCheck env now s) = sock s'"
    using a run by (simp add: sock_asyncCheck_except split: option.splits)
  with later out have oa: "\<exists>later. sock_out (sock (asyncCheck env now s)) =
             sock_out (sock s1) @ [''.'' @ [newline]] @ later"
    by simp
  have n: "invoked ?t = invoked s1"
    by (simp add: internalSend_def sendall_def)
  from c a i n oc oa show ?thesis
    by (intro conjI)
qed

theorem keep_alive_reply_witness:
  "check example_env 0
     (example_client\<lparr>sock := \<lparr>sock_closed = False,
        sock_in = [Bytes (line_x @ [newline] @ ''ping'')], sock_out = []\<rparr>\<rparr>) =
     example_client\<lparr>invoked :=
        [Subscriber 1 (JStr ''s'') (JStr ''channel'') [(''x'', JNum 1)],
         Subscriber 2 (JStr ''s'') (JStr ''channel'') [(''x'', JNum 1)]],
        sock := \<lparr>sock_closed = False, sock_in = [], sock_out = [''.'' @ [newline]]\<rparr>\<rparr>
   \<and> asyncCheck example_env 0
     (example_client\<lparr>sock := \<lparr>sock_closed = False,
        sock_in = [Bytes (line_x @ [newline] @ ''ping'')], sock_out = []\<rparr>\<rparr>) =
     example_client\<lparr>invoked :=
        [Subscriber 1 (JStr ''s'') (JStr ''channel'') [(''x'', JNum 1)],
         Subscriber 2 (JStr ''s'') (JStr ''channel'') [(''x'', JNum 1)]],
        sock := \<lparr>sock_closed = False, sock_in = [], sock_out = [''.'' @ [newline]]\<rparr>\<rparr>"
proof -
  let ?data = "line_x @ [newline] @ ''ping''"
  let ?s = "example_client\<lparr>sock := \<lparr>sock_closed = False,
        sock_in = [Bytes ?data], sock_out = []\<rparr>\<rparr>"
  let ?k = "\<lparr>sock_closed = False, sock_in = [], sock_out = []\<rparr>"
  let ?s1 = "example_client\<lparr>invoked :=
        [Subscriber 1 (JStr ''s'') (JStr ''channel'') [(''x'', JNum 1)],
         Subscriber 2 (JStr ''s'') (JStr ''channel'') [(''x'', JNum 1)]]\<rparr>"
  have read: "recv_into (sock ?s) = (Inr ?data, ?k)"
    by (simp add: recv_into_def)
  have "newline \<notin> set line_x" "newline \<notin> set ''ping''"
    by (simp_all add: newline_def line_x_def)
  then have lines: "split newline ?data = [line_x] @ ''ping'' # []"
    using split_at_separator [of newline line_x "''ping''"] split_no_separator [of newline "''ping''"]
    by simp
  have ka: "startswith ''ping'' ''ping'' \<or> startswith ''ping'' ''.''"
    by (simp add: startswith_def)
  have same: "?s\<lparr>sock := ?k\<rparr> = example_client"
    by (simp add: example_client_def)
  have st: "startswith line_x ''{''" "\<not> startswith line_x ''ping''" "\<not> startswith line_x ''.''"
    by (simp_all add: startswith_def line_x_def)
  have ld: "json_loads example_env line_x = Inr event_x"
    by (simp add: example_env_def example_loads_def)
  have r: "receive example_env 0 event_x example_client = (None, ?s1)"
    by (simp add: receive_def clean_up_def dict_get_def dict_del_def dict_has_def
        dict_remove_def is_service_call_def receiveChannelEvent_def lookup_key_def
        event_x_def example_client_def example_env_def)
  have "check_line example_env 0 ?data line_x example_client = (None, ?s1)"
    using st ld r by (simp add: check_line_def)
  then have pre: "check_lines example_env 0 ?data [line_x] (?s\<lparr>sock := ?k\<rparr>) = (None, ?s1)"
    unfolding same by simp
  have fin: "internalSend ''.'' ?s1 = ?s1\<lparr>sock := \<lparr>sock_closed = False, sock_in = [],
      sock_out = [''.'' @ [newline]]\<rparr>\<rparr>"
    by (simp add: internalSend_def sendall_def example_client_def)
  from keep_alive_reply [OF read lines ka pre]
  have "check example_env 0 ?s = internalSend ''.'' ?s1"
    and "asyncCheck example_env 0 ?s = internalSend ''.'' ?s1"
    by simp_all
  then show ?thesis
    unfolding fin by (rule conjI)
qed

subsection \<open>A read of zero bytes\<close>

text \<open>
  C7. When the read of \<open>check\<close> or of \<open>asyncCheck\<close> on an open socket returns zero bytes,
  the step closes the socket and sets \<open>connected\<close> to \<open>False\<close>, calls no user function
  and changes no registry; and after any further operations on the client the socket is
  still closed, the client still disconnected, and still no user function has been
  called.
\<close>

theorem zero_read_is_terminal:
  assumes op: "\<not> sock_closed (sock s)" and zero: "sock_in (sock s) = Bytes [] # rest"
    and step: "s' = check env now s \<or> s' = asyncCheck env now s"
  shows "sock_closed (sock s') \<and> \<not> connected s' \<and> invoked s' = invoked s
       \<and> receivers s' = receivers s \<and> calls s' = calls s \<and> heap s' = heap s
       \<and> sock_out (sock s') = sock_out (sock s)
       \<and> (\<forall>ops. sock_closed (sock (run env ops s')) \<and> \<not> connected (run env ops s')
                \<and> invoked (run env ops s') = invoked s)"
proof -
  from step check_zero [OF op zero] asyncCheck_zero [OF op zero]
  have eq: "s' = s\<lparr>sock := (sock s)\<lparr>sock_in := rest, sock_closed := True\<rparr>, connected := False\<rparr>"
    by auto
  then have a: "sock_closed (sock s')" and b: "\<not> connected s'" and c: "invoked s' = invoked s"
    by simp_all
  from closed_run [OF a b] c have "\<forall>ops. sock_closed (sock (run env ops s'))
      \<and> \<not> connected (run env ops s') \<and> invoked (run env ops s') = invoked s"
    by simp
  with eq show ?thesis by simp
qed

theorem zero_read_is_terminal_witness:
  "sock_closed (sock (check example_env 0
       (example_client\<lparr>sock := \<lparr>sock_closed = False, sock_in = [Bytes [], Bytes line_x],
                                  sock_out = []\<rparr>\<rparr>)))
   \<and> invoked (run example_env [Check 1, AsyncCheck 2]
       (check example_env 0
          (example_client\<lparr>sock := \<lparr>sock_closed = False, sock_in = [Bytes [], Bytes line_x],
                                     sock_out = []\<rparr>\<rparr>))) = []"
  using zero_read_is_terminal
    [of "example_client\<lparr>sock := \<lparr>sock_closed = False, sock_in = [Bytes [], Bytes line_x],
                                    sock_out = []\<rparr>\<rparr>"
        "[Bytes line_x]"
        "check example_env 0
          (example_client\<lparr>sock := \<lparr>sock_closed = False, sock_in = [Bytes [], Bytes line_x],
                                     sock_out = []\<rparr>\<rparr>)"
        example_env 0]
  by (simp add: example_client_def)

subsection \<open>Channel events\<close>

text \<open>
  C4. \<open>subscribe\<close> appends to the list of the channel, so subscribing the functions
  \<open>gs\<close> one after the other adds \<open>gs\<close>, repetitions included, in that order. A plain
  event for channel \<open>c\<close> (no \<open>_MESSAGE_HANDLE\<close>, no \<open>_MESSAGE_ID\<close>) calls the functions of
  the list of \<open>c\<close> once each, in the order of the list, with the sender, the recipient and
  the payload, provided each of them returns and leaves the payload as it is.
\<close>

theorem broadcast_in_registration_order:
  assumes "map_of event ''sender'' = Some sender"
    and "map_of event ''recipient'' = Some (JStr c)"
    and "dict_has ''timestamp'' event"
    and "\<not> dict_has ''_MESSAGE_HANDLE'' event"
    and "\<not> dict_has ''_MESSAGE_ID'' event"
    and "map_of (receivers s) c = Some (map PyFun ids)"
    and "\<forall>f\<in>set ids. subscriber env f sender (JStr c) (strip_control event)
                       = Inr (strip_control event)"
  shows "receive env now event s =
           (None, s\<lparr>invoked := invoked s @
                      map (\<lambda>f. Subscriber f sender (JStr c) (strip_control event)) ids\<rparr>)
       \<and> subscribers c (subscribe c g s) = subscribers c s @ [g]
       \<and> subscribers c (fold (subscribe c) gs s) = subscribers c s @ gs"
proof -
  have one: "subscribers c (subscribe c g t) = subscribers c t @ [g]" for g t
    by (simp add: subscribers_def subscribe_def Let_def log_def internalSend_def sendall_def
        map_of_dict_set split: option.splits)
  have many: "subscribers c (fold (subscribe c) gs t) = subscribers c t @ gs" for t
    by (induction gs arbitrary: t) (simp_all add: one)
  have "receive env now event s =
          call_each env sender (JStr c) (map PyFun ids) (strip_control event) s"
    using receive_plain [OF assms(1-5)] assms(6)
    by (simp add: receiveChannelEvent_def lookup_key_def)
  with call_each_ok [OF assms(7)] one many show ?thesis
    by simp
qed

theorem broadcast_in_registration_order_witness:
  "receive example_env 0 event_x example_client =
     (None, example_client\<lparr>invoked :=
               [Subscriber 1 (JStr ''s'') (JStr ''channel'') [(''x'', JNum 1)],
                Subscriber 2 (JStr ''s'') (JStr ''channel'') [(''x'', JNum 1)]]\<rparr>)
   \<and> subscribers ''channel'' (subscribe ''channel'' (PyFun 1) example_client) =
       [PyFun 1, PyFun 2, PyFun 1]"
  using broadcast_in_registration_order
    [of event_x "JStr ''s''" "''channel''" example_client "[1, 2]" example_env 0 "PyFun 1" "[]"]
  by (simp add: event_x_def example_client_def example_env_def dict_has_def
      strip_control_def subscribers_def)

subsection \<open>An inbound line\<close>

text \<open>
  C5. A line that starts with \<open>{\<close> and that \<open>json.loads\<close> reads as an event with
  \<open>sender\<close>, \<open>recipient\<close> \<open>c\<close> and \<open>timestamp\<close>, without \<open>_MESSAGE_HANDLE\<close> and
  \<open>_MESSAGE_ID\<close>, is delivered by the loop body of \<open>check\<close> and of \<open>asyncCheck\<close> to each
  subscriber of \<open>c\<close> as (sender, recipient, payload), where the payload has lost exactly
  the keys \<open>sender\<close>, \<open>recipient\<close>, \<open>timestamp\<close> and \<open>data\<close>; the subscribers return and
  leave the payload as it is. For the line
  \<open>{"sender":"s","recipient":"channel","timestamp":0,"x":1}\<close> the payload is \<open>{"x":1}\<close>.
\<close>

theorem inbound_line_is_stripped:
  assumes "startswith line ''{''"
    and "data \<noteq> []"
    and "json_loads env line = Inr event"
    and "map_of event ''sender'' = Some sender"
    and "map_of event ''recipient'' = Some (JStr c)"
    and "dict_has ''timestamp'' event"
    and "\<not> dict_has ''_MESSAGE_HANDLE'' event"
    and "\<not> dict_has ''_MESSAGE_ID'' event"
    and "map_of (receivers s) c = Some (map PyFun ids)"
    and "\<forall>f\<in>set ids. subscriber env f sender (JStr c) (strip_control event)
                       = Inr (strip_control event)"
  shows "check_line env now data line s =
           (None, s\<lparr>invoked := invoked s @
                      map (\<lambda>f. Subscriber f sender (JStr c) (strip_control event)) ids\<rparr>)
       \<and> asyncCheck_line env now line s = check_line env now data line s
       \<and> map_of (strip_control event) k =
           (if k \<in> {''sender'', ''recipient'', ''timestamp'', ''data''} then None
            else map_of event k)"
proof -
  from assms(1) have "\<not> startswith line ''ping''" and "\<not> startswith line ''.''"
    by (cases line; simp add: startswith_def)+
  moreover have "receive env now event s =
      call_each env sender (JStr c) (map PyFun ids) (strip_control event) s"
    using receive_plain [OF assms(4-8)] assms(9)
    by (simp add: receiveChannelEvent_def lookup_key_def)
  ultimately show ?thesis
    using assms(1-3) call_each_ok [OF assms(10)]
    by (simp add: check_line_def asyncCheck_line_def map_of_strip_control)
qed

theorem inbound_line_is_stripped_witness:
  "check_line example_env 0 line_x line_x example_client =
     (None, example_client\<lparr>invoked :=
               [Subscriber 1 (JStr ''s'') (JStr ''channel'') [(''x'', JNum 1)],
                Subscriber 2 (JStr ''s'') (JStr ''channel'') [(''x'', JNum 1)]]\<rparr>)
   \<and> strip_control event_x = [(''x'', JNum 1)]"
  using inbound_line_is_stripped
    [of line_x line_x example_env event_x "JStr ''s''" "''channel''" example_client "[1, 2]" 0 "''x''"]
  by (simp add: event_x_def example_client_def example_env_def dict_has_def
      strip_control_def example_loads_def startswith_def line_x_def)

subsection \<open>Service calls\<close>

lemma receive_service:
  assumes "map_of event ''sender'' = Some sender"
    and "map_of event ''recipient'' = Some recipient"
    and "dict_has ''timestamp'' event"
    and "map_of event ''_MESSAGE_HANDLE'' = Some (JStr h)"
    and "map_of (services s) h = Some service"
  shows "receive env now event s =
           serve env service sender recipient
             (dict_remove ''_MESSAGE_HANDLE'' (strip_control event)) s"
  using assms(4,5) clean_up_ok [OF assms(1-3)]
  by (simp add: receive_def is_service_call_def map_of_strip_control lookup_key_def)

text \<open>
  C3, as the code has it. An event whose \<open>_MESSAGE_HANDLE\<close> names a registered responder
  calls the responder once, with the event without \<open>sender\<close>, \<open>recipient\<close>, \<open>timestamp\<close>,
  \<open>data\<close> and \<open>_MESSAGE_HANDLE\<close> (\<open>_MESSAGE_ID\<close> stays). What is then sent to the sender
  is that dict as the responder left it, not the value the responder returned; and the
  subscribers of the recipient channel are called once each with the same dict.
  \<open>register\<close> makes the callback the responder of the call name.
\<close>

theorem service_call_publishes_event:
  assumes "map_of event ''sender'' = Some sender"
    and "map_of event ''recipient'' = Some (JStr c)"
    and "dict_has ''timestamp'' event"
    and "map_of event ''_MESSAGE_HANDLE'' = Some (JStr h)"
    and "map_of (services s) h = Some (PyFun f)"
    and "request = dict_remove ''_MESSAGE_HANDLE'' (strip_control event)"
    and "responder env f request = Inr (event', returned)"
    and "\<not> sock_closed (sock s)"
    and "subscribers c s = map PyFun ids"
    and "\<forall>g\<in>set ids. subscriber env g sender (JStr c) event' = Inr event'"
  shows "receive env now event s =
           (None, s\<lparr>invoked := invoked s @ [Responder f request] @
                        map (\<lambda>g. Subscriber g sender (JStr c) event') ids,
                    sock := (sock s)\<lparr>sock_out := sock_out (sock s) @
                        [''sendraw '' @ format env sender @ '' '' @ json_dumps env event'
                           @ [newline]]\<rparr>\<rparr>)
       \<and> map_of request ''_MESSAGE_ID'' = map_of event ''_MESSAGE_ID''
       \<and> map_of (services (register channelName callName callback s)) callName
           = Some callback"
proof -
  let ?s1 = "s\<lparr>invoked := invoked s @ [Responder f request]\<rparr>"
  let ?s2 = "send env (format env sender) event' ?s1"
  have s2: "?s2 = ?s1\<lparr>sock := (sock s)\<lparr>sock_out := sock_out (sock s) @
              [''sendraw '' @ format env sender @ '' '' @ json_dumps env event' @ [newline]]\<rparr>\<rparr>"
    using assms(8) by (simp add: send_def internalSend_def sendall_def)
  have "receive env now event s = receiveChannelEvent env sender (JStr c) event' ?s2"
    using receive_service [OF assms(1-5)] assms(6,7)
    by (simp add: serve_def)
  also have "\<dots> = call_each env sender (JStr c) (map PyFun ids) event' ?s2"
  proof (cases "map_of (receivers s) c")
    case None
    with assms(9) have "ids = []"
      by (simp add: subscribers_def)
    with None show ?thesis
      by (simp add: receiveChannelEvent_def lookup_key_def s2)
  next
    case (Some fs)
    with assms(9) show ?thesis
      by (simp add: receiveChannelEvent_def lookup_key_def s2 subscribers_def)
  qed
  also have "\<dots> = (None, ?s2\<lparr>invoked := invoked ?s2 @
                        map (\<lambda>g. Subscriber g sender (JStr c) event') ids\<rparr>)"
    by (rule call_each_ok [OF assms(10)])
  finally have "receive env now event s =
      (None, ?s2\<lparr>invoked := invoked ?s2 @
                        map (\<lambda>g. Subscriber g sender (JStr c) event') ids\<rparr>)" .
  then have "receive env now event s =
           (None, s\<lparr>invoked := invoked s @ [Responder f request] @
                        map (\<lambda>g. Subscriber g sender (JStr c) event') ids,
                    sock := (sock s)\<lparr>sock_out := sock_out (sock s) @
                        [''sendraw '' @ format env sender @ '' '' @ json_dumps env event'
                           @ [newline]]\<rparr>\<rparr>)"
    unfolding s2 by simp
  moreover have "map_of request ''_MESSAGE_ID'' = map_of event ''_MESSAGE_ID''"
    unfolding assms(6) by (simp add: map_of_dict_remove map_of_strip_control)
  moreover have "map_of (services (register channelName callName callback s)) callName
      = Some callback"
    by (simp add: register_def log_def internalSend_def sendall_def map_of_dict_set)
  ultimately show ?thesis
    by (intro conjI)
qed

theorem service_call_publishes_event_witness:
  "receive example_env 0 event_add example_client =
     (None, example_client\<lparr>invoked :=
        [Responder 5 [(''_MESSAGE_ID'', JStr ''7''), (''x'', JNum 1)],
         Subscriber 1 (JStr ''s'') (JStr ''channel'') [(''_MESSAGE_ID'', JStr ''7''), (''x'', JNum 1)],
         Subscriber 2 (JStr ''s'') (JStr ''channel'') [(''_MESSAGE_ID'', JStr ''7''), (''x'', JNum 1)]],
        sock := \<lparr>sock_closed = False, sock_in = [],
                 sock_out = [''sendraw s '' @
                    example_dumps [(''_MESSAGE_ID'', JStr ''7''), (''x'', JNum 1)] @ [newline]]\<rparr>\<rparr>)"
proof -
  let ?req = "[(''_MESSAGE_ID'', JStr ''7''), (''x'', JNum 1)]"
  have 1: "map_of event_add ''sender'' = Some (JStr ''s'')"
    and 2: "map_of event_add ''recipient'' = Some (JStr ''channel'')"
    and 3: "dict_has ''timestamp'' event_add"
    and 4: "map_of event_add ''_MESSAGE_HANDLE'' = Some (JStr ''add'')"
    by (simp_all add: event_add_def dict_has_def)
  have 5: "map_of (services example_client) ''add'' = Some (PyFun 5)"
    and 8: "\<not> sock_closed (sock example_client)"
    and 9: "subscribers ''channel'' example_client = map PyFun [1, 2]"
    by (simp_all add: example_client_def subscribers_def)
  have 6: "?req = dict_remove ''_MESSAGE_HANDLE'' (strip_control event_add)"
    by (simp add: event_add_def strip_control_def dict_remove_def)
  have 7: "responder example_env 5 ?req = Inr (?req, JObj [(''y'', JNum 2)])"
    by (simp add: example_env_def)
  have 10: "\<forall>g\<in>set [1, 2]. subscriber example_env g (JStr ''s'') (JStr ''channel'') ?req = Inr ?req"
    by (simp add: example_env_def)
  from service_call_publishes_event [OF 1 2 3 4 5 6 7 8 9 10, of 0]
  show ?thesis
    by (simp add: example_client_def example_env_def format_def)
qed

text \<open>
  C3, as the claim has it, fails: the responder of the example returns \<open>{"y": 2}\<close> and
  leaves the event alone, and what is written to the socket is the event.
\<close>

theorem return_value_not_published:
  "responder example_env 5 [(''_MESSAGE_ID'', JStr ''7''), (''x'', JNum 1)] =
     Inr ([(''_MESSAGE_ID'', JStr ''7''), (''x'', JNum 1)], JObj [(''y'', JNum 2)])
   \<and> sock_out (sock (snd (receive example_env 0 event_add example_client))) =
       [''sendraw s '' @ json_dumps example_env [(''_MESSAGE_ID'', JStr ''7''), (''x'', JNum 1)]
          @ [newline]]
   \<and> sock_out (sock (snd (receive example_env 0 event_add example_client))) \<noteq>
       [''sendraw s '' @ json_dumps example_env [(''y'', JNum 2)] @ [newline]]"
  by (simp add: receive_def clean_up_def dict_get_def dict_del_def dict_has_def dict_remove_def
      is_service_call_def lookup_key_def serve_def send_def internalSend_def sendall_def
      receiveChannelEvent_def format_def
      event_add_def example_client_def example_env_def example_dumps_def)

subsection \<open>Responses to calls\<close>

lemma keeps_records_refl: "keeps_records s s"
  by (simp add: keeps_records_def)

lemma keeps_records_heap: "heap s' = heap s \<Longrightarrow> keeps_records s s'"
  by (simp add: keeps_records_def)

lemma keeps_records_trans:
  "keeps_records s s' \<Longrightarrow> keeps_records s' s'' \<Longrightarrow> keeps_records s s''"
  unfolding keeps_records_def by meson

lemma keeps_records_inv:
  "no_late_response s \<Longrightarrow> keeps_records s s' \<Longrightarrow> no_late_response s'"
  unfolding keeps_records_def no_late_response_def by fastforce

lemma heap_send: "heap (send env c d s) = heap s"
  by (simp add: send_def heap_internalSend)

lemma heap_call_each: "heap (snd (call_each env a b fs ev s)) = heap s"
  by (induction fs arbitrary: ev s) (auto simp: Let_def split: callable.splits sum.splits)

lemma heap_receiveChannelEvent: "heap (snd (receiveChannelEvent env a b ev s)) = heap s"
  by (simp add: receiveChannelEvent_def heap_call_each split: sum.splits option.splits)

lemma heap_serve: "heap (snd (serve env f a b ev s)) = heap s"
  by (simp add: serve_def Let_def heap_receiveChannelEvent heap_send
      split: callable.splits sum.splits prod.splits)

lemma heap_serve_eq: "serve env f a b ev s = (out, s') \<Longrightarrow> heap s' = heap s"
  using heap_serve [of env f a b ev s] by simp

lemma heap_receiveChannelEvent_eq:
  "receiveChannelEvent env a b ev s = (out, s') \<Longrightarrow> heap s' = heap s"
  using heap_receiveChannelEvent [of env a b ev s] by simp

lemma respond_changes:
  assumes "respond now m r ev s = (out, s')"
    and "heap s q = Some c0" and "heap s' q = Some c1" and "cr_response c1 \<noteq> cr_response c0"
  shows "\<exists>d. cr_expiration c0 = Some d \<and> now < d"
  using assms
  by (auto simp: respond_def Let_def split: option.splits if_splits)

lemma respond_keeps: "keeps_records s (snd (respond now m r ev s))"
  by (auto simp: respond_def Let_def keeps_records_def split: option.splits if_splits)

lemma receive_keeps: "keeps_records s (snd (receive env now ev s))"
  by (simp add: receive_def keeps_records_refl respond_keeps keeps_records_heap
      heap_serve heap_receiveChannelEvent
      split: sum.splits option.splits json.splits prod.splits)

lemma receive_changes:
  assumes "receive env now ev s = (out, s')"
    and "heap s q = Some c0" and "heap s' q = Some c1" and "cr_response c1 \<noteq> cr_response c0"
  shows "\<exists>d. cr_expiration c0 = Some d \<and> now < d"
proof -
  have "heap s' = heap s \<or> (\<exists>m r ev'. respond now m r ev' s = (out, s'))"
    using assms(1)
    by (auto simp: receive_def dest: heap_serve_eq heap_receiveChannelEvent_eq
        split: sum.splits option.splits json.splits prod.splits)
  then show ?thesis
  proof
    assume "heap s' = heap s"
    with assms(2-4) show ?thesis by simp
  next
    assume "\<exists>m r ev'. respond now m r ev' s = (out, s')"
    then obtain m r ev' where "respond now m r ev' s = (out, s')"
      by blast
    from respond_changes [OF this assms(2-4)] show ?thesis .
  qed
qed

lemma check_line_keeps: "keeps_records s (snd (check_line env now data line s))"
  by (simp add: check_line_def keeps_records_refl receive_keeps keeps_records_heap
      heap_internalSend split: sum.splits)

lemma check_lines_keeps: "keeps_records s (snd (check_lines env now data lines s))"
proof (induction lines arbitrary: s)
  case Nil
  show ?case by (simp add: keeps_records_refl)
next
  case (Cons line lines)
  obtain out s' where step: "check_line env now data line s = (out, s')"
    by (cases "check_line env now data line s")
  with check_line_keeps [of s env now data line] have k: "keeps_records s s'"
    by simp
  show ?case
  proof (cases out)
    case None
    with step Cons.IH [of s'] k show ?thesis
      by (auto intro: keeps_records_trans)
  next
    case (Some e)
    with step k show ?thesis by simp
  qed
qed

lemma asyncCheck_line_keeps: "keeps_records s (snd (asyncCheck_line env now line s))"
  by (simp add: asyncCheck_line_def keeps_records_refl receive_keeps keeps_records_heap
      heap_internalSend split: sum.splits)

lemma asyncCheck_lines_keeps: "keeps_records s (snd (asyncCheck_lines env now lines s))"
proof (induction lines arbitrary: s)
  case Nil
  show ?case by (simp add: keeps_records_refl)
next
  case (Cons line lines)
  obtain out s' where step: "asyncCheck_line env now line s = (out, s')"
    by (cases "asyncCheck_line env now line s")
  with asyncCheck_line_keeps [of s env now line] have k: "keeps_records s s'"
    by simp
  show ?case
  proof (cases out)
    case None
    with step Cons.IH [of s'] k show ?thesis
      by (auto intro: keeps_records_trans)
  next
    case (Some e)
    with step k show ?thesis by simp
  qed
qed

lemma keeps_records_sock: "keeps_records (s\<lparr>sock := k\<rparr>) s' \<Longrightarrow> keeps_records s s'"
  by (simp add: keeps_records_def)

lemma heap_asyncCheck_except: "heap (asyncCheck_except env e s) = heap s"
  by (simp add: asyncCheck_except_def heap_log split: pyerr.splits)

lemma check_keeps: "keeps_records s (check env now s)"
  by (auto simp: check_def keeps_records_heap split: prod.splits sum.splits
      intro: keeps_records_sock check_lines_keeps)

lemma asyncCheck_keeps: "keeps_records s (asyncCheck env now s)"
proof (cases "recv_into (sock s)")
  case (Pair res k)
  show ?thesis
  proof (cases res)
    case (Inl e)
    with Pair show ?thesis
      by (simp add: asyncCheck_def keeps_records_heap heap_asyncCheck_except)
  next
    case (Inr data)
    let ?t = "s\<lparr>sock := k\<rparr>"
    obtain out s' where run: "asyncCheck_lines env now (split newline data) ?t = (out, s')"
      by (cases "asyncCheck_lines env now (split newline data) ?t")
    with asyncCheck_lines_keeps [of ?t env now "split newline data"]
    have "keeps_records ?t s'"
      by simp
    then have k: "keeps_records s s'"
      by (rule keeps_records_sock)
    then have "keeps_records s (asyncCheck_except env e s')" for e
      by (simp add: keeps_records_def heap_asyncCheck_except)
    with Pair Inr run k show ?thesis
      by (simp add: asyncCheck_def keeps_records_heap split: option.splits)
  qed
qed

lemma heap_subscribe: "heap (subscribe c f s) = heap s"
  by (simp add: subscribe_def Let_def heap_log heap_internalSend split: option.splits)

lemma heap_unsubscribe: "heap (snd (unsubscribe c s)) = heap s"
  by (simp add: unsubscribe_def heap_log heap_internalSend split: sum.splits)

lemma heap_register: "heap (register c n f s) = heap s"
  by (simp add: register_def heap_log heap_internalSend)

lemma heap_stop: "heap (stop s) = heap s"
  by (simp add: stop_def Let_def heap_internalSend)

lemma call_keeps: "keeps_records s (snd (snd (call env now rnd c n d t s)))"
  by (simp add: call_def Let_def keeps_records_def heap_send)

lemma perform_keeps: "keeps_records s (perform env op s)"
  by (cases op)
    (simp_all add: check_keeps asyncCheck_keeps call_keeps keeps_records_heap heap_send
       heap_subscribe heap_unsubscribe heap_register heap_stop)

lemma run_keeps: "keeps_records s (run env ops s)"
proof (induction ops arbitrary: s)
  case Nil
  show ?case by (simp add: run_def keeps_records_refl)
next
  case (Cons op ops)
  from perform_keeps [of s env op] Cons.IH [of "perform env op s"]
  show ?case
    unfolding run_def by (auto intro: keeps_records_trans)
qed

lemma respond_in_time:
  assumes "heap s r = Some c" and "cr_expiration c = Some deadline"
    and "cr_MESSAGE_ID c = Some i" and "now < deadline"
  shows "respond now m r ev s =
           (None, s\<lparr>heap := (heap s)(r \<mapsto>
                      c\<lparr>cr_response := Some (dict_remove ''_MESSAGE_ID'' ev),
                        cr_expiration := None, cr_MESSAGE_ID := None\<rparr>)\<rparr>)"
  using assms by (cases c) (simp add: respond_def Let_def)

lemma respond_late:
  assumes "heap s r = Some c" and "cr_expiration c = Some deadline" and "deadline \<le> now"
  shows "respond now m r ev s = (None, s\<lparr>calls := dict_remove m (calls s)\<rparr>)"
  using assms by (simp add: respond_def)

lemma receive_response:
  assumes "map_of event ''sender'' = Some sender"
    and "map_of event ''recipient'' = Some recipient"
    and "dict_has ''timestamp'' event"
    and "is_service_call (strip_control event) s = Inr None"
    and "map_of event ''_MESSAGE_ID'' = Some (JStr m)"
    and "map_of (calls s) m = Some r"
  shows "receive env now event s = respond now m r (strip_control event) s"
  using assms(4-6) clean_up_ok [OF assms(1-3)]
  by (simp add: receive_def map_of_strip_control)

text \<open>
  C2. An event with \<open>_MESSAGE_ID\<close> \<open>m\<close> that is no service call, for a call that is in
  \<open>calls\<close> under \<open>m\<close> and still has its deadline: processed strictly before the deadline,
  the payload (without \<open>_MESSAGE_ID\<close>) becomes the \<open>response\<close> of the dict of the call and
  the keys \<open>expiration\<close> and \<open>_MESSAGE_ID\<close> go; processed at the deadline or later, the
  entry is deleted from \<open>calls\<close> and the dict, which the caller still holds, is as it was,
  without a response. Whatever event \<open>receive\<close> processes at time \<open>now\<close> in whatever
  state, a dict whose \<open>response\<close> changes had a deadline later than \<open>now\<close>. And no run of
  operations on a constructed client leads to a dict that has both a deadline and a
  response.
\<close>

theorem response_only_before_deadline:
  assumes "map_of event ''sender'' = Some sender"
    and "map_of event ''recipient'' = Some recipient"
    and "dict_has ''timestamp'' event"
    and "is_service_call (strip_control event) s = Inr None"
    and "map_of event ''_MESSAGE_ID'' = Some (JStr m)"
    and "map_of (calls s) m = Some r"
    and "heap s r = Some c"
    and "cr_expiration c = Some deadline"
    and "cr_MESSAGE_ID c = Some i"
  shows "(if now < deadline then
            receive env now event s =
              (None, s\<lparr>heap := (heap s)(r \<mapsto>
                 c\<lparr>cr_response := Some (dict_remove ''_MESSAGE_ID'' (strip_control event)),
                   cr_expiration := None, cr_MESSAGE_ID := None\<rparr>)\<rparr>)
          else
            receive env now event s = (None, s\<lparr>calls := dict_remove m (calls s)\<rparr>)
            \<and> map_of (calls (snd (receive env now event s))) m = None
            \<and> heap (snd (receive env now event s)) r = Some c)
       \<and> (\<forall>ev t out t' q c0 c1.
             receive env now ev t = (out, t') \<longrightarrow> heap t q = Some c0 \<longrightarrow>
             heap t' q = Some c1 \<longrightarrow> cr_response c1 \<noteq> cr_response c0 \<longrightarrow>
             (\<exists>d. cr_expiration c0 = Some d \<and> now < d))
       \<and> (\<forall>t ops. no_late_response t \<longrightarrow> no_late_response (run env ops t))
       \<and> (\<forall>rnd conn handle0 host port callback t ops.
             OOCSI env rnd conn handle0 host port callback = Some t \<longrightarrow>
             no_late_response (run env ops t))"
proof -
  have eq: "receive env now event s = respond now m r (strip_control event) s"
    by (rule receive_response [OF assms(1-6)])
  have a: "now < deadline \<Longrightarrow> receive env now event s =
              (None, s\<lparr>heap := (heap s)(r \<mapsto>
                 c\<lparr>cr_response := Some (dict_remove ''_MESSAGE_ID'' (strip_control event)),
                   cr_expiration := None, cr_MESSAGE_ID := None\<rparr>)\<rparr>)"
    unfolding eq by (rule respond_in_time [OF assms(7-9)])
  have b: "\<not> now < deadline \<Longrightarrow>
      receive env now event s = (None, s\<lparr>calls := dict_remove m (calls s)\<rparr>)"
    unfolding eq by (rule respond_late [OF assms(7,8)]) simp
  have c: "\<forall>ev t out t' q c0 c1.
             receive env now ev t = (out, t') \<longrightarrow> heap t q = Some c0 \<longrightarrow>
             heap t' q = Some c1 \<longrightarrow> cr_response c1 \<noteq> cr_response c0 \<longrightarrow>
             (\<exists>d. cr_expiration c0 = Some d \<and> now < d)"
    using receive_changes by blast
  have d: "\<forall>t ops. no_late_response t \<longrightarrow> no_late_response (run env ops t)"
    using keeps_records_inv run_keeps by blast
  have "no_late_response t"
    if "OOCSI env rnd conn handle0 host port callback = Some t"
    for rnd conn handle0 host port callback t
    using constructed [OF that] by (simp add: no_late_response_def)
  with d have e: "\<forall>rnd conn handle0 host port callback t ops.
             OOCSI env rnd conn handle0 host port callback = Some t \<longrightarrow>
             no_late_response (run env ops t)"
    by blast
  from a b assms(7) have ab: "if now < deadline then
            receive env now event s =
              (None, s\<lparr>heap := (heap s)(r \<mapsto>
                 c\<lparr>cr_response := Some (dict_remove ''_MESSAGE_ID'' (strip_control event)),
                   cr_expiration := None, cr_MESSAGE_ID := None\<rparr>)\<rparr>)
          else
            receive env now event s = (None, s\<lparr>calls := dict_remove m (calls s)\<rparr>)
            \<and> map_of (calls (snd (receive env now event s))) m = None
            \<and> heap (snd (receive env now event s)) r = Some c"
    by (simp add: map_of_dict_remove)
  from ab c d e show ?thesis
    by (intro conjI)
qed

theorem response_only_before_deadline_witness:
  "receive example_env 10 event_reply example_caller =
     (None, example_caller\<lparr>heap := [0 \<mapsto>
        \<lparr>cr_MESSAGE_HANDLE = Some ''add'', cr_MESSAGE_ID = None,
         cr_expiration = None, cr_response = Some [(''z'', JNum 3)]\<rparr>]\<rparr>)
   \<and> receive example_env 11 event_reply example_caller =
       (None, example_caller\<lparr>calls := []\<rparr>)
   \<and> heap (snd (receive example_env 11 event_reply example_caller)) 0 = Some example_pending"
proof -
  have 1: "map_of event_reply ''sender'' = Some (JStr ''s'')"
    and 2: "map_of event_reply ''recipient'' = Some (JStr ''me'')"
    and 3: "dict_has ''timestamp'' event_reply"
    and 5: "map_of event_reply ''_MESSAGE_ID'' = Some (JStr ''7'')"
    by (simp_all add: event_reply_def dict_has_def)
  have 4: "is_service_call (strip_control event_reply) example_caller = Inr None"
    by (simp add: is_service_call_def event_reply_def strip_control_def)
  have 6: "map_of (calls example_caller) ''7'' = Some 0"
    and 7: "heap example_caller 0 = Some example_pending"
    by (simp_all add: example_caller_def)
  have 8: "cr_expiration example_pending = Some 11"
    and 9: "cr_MESSAGE_ID example_pending = Some ''7''"
    by (simp_all add: example_pending_def)
  have p: "dict_remove ''_MESSAGE_ID'' (strip_control event_reply) = [(''z'', JNum 3)]"
    by (simp add: event_reply_def strip_control_def dict_remove_def)
  from response_only_before_deadline [OF 1 2 3 4 5 6 7 8 9, of 10 example_env]
  have a: "receive example_env 10 event_reply example_caller =
     (None, example_caller\<lparr>heap := [0 \<mapsto>
        \<lparr>cr_MESSAGE_HANDLE = Some ''add'', cr_MESSAGE_ID = None,
         cr_expiration = None, cr_response = Some [(''z'', JNum 3)]\<rparr>]\<rparr>)"
    by (simp add: p example_caller_def example_pending_def)
  from response_only_before_deadline [OF 1 2 3 4 5 6 7 8 9, of 11 example_env]
  have b: "receive example_env 11 event_reply example_caller =
       (None, example_caller\<lparr>calls := []\<rparr>)
     \<and> heap (snd (receive example_env 11 event_reply example_caller)) 0 = Some example_pending"
    by (simp add: example_caller_def dict_remove_def)
  from a b show ?thesis
    by (rule conjI)
qed

subsection \<open>A response to an unknown call\<close>

text \<open>
  C1. With no call pending, a chunk of two lines arrives: a response with
  \<open>_MESSAGE_ID\<close> \<open>7\<close>, then the event for \<open>channel\<close>, which has two subscribers. The
  subscription \<open>self.calls[event['_MESSAGE_ID']]\<close> raises \<open>KeyError\<close>, which leaves the
  loop over the lines and is swallowed by \<open>except: pass\<close>: the second line is never
  processed. Alone in a chunk, the same second line reaches both subscribers.
\<close>

theorem unknown_call_id_aborts_chunk:
  "check example_env 0
     (example_client\<lparr>sock := \<lparr>sock_closed = False,
        sock_in = [Bytes (line_reply @ [newline] @ line_x)], sock_out = []\<rparr>\<rparr>) =
     example_client
   \<and> invoked (check example_env 0
       (example_client\<lparr>sock := \<lparr>sock_closed = False,
          sock_in = [Bytes line_x], sock_out = []\<rparr>\<rparr>)) =
       [Subscriber 1 (JStr ''s'') (JStr ''channel'') [(''x'', JNum 1)],
        Subscriber 2 (JStr ''s'') (JStr ''channel'') [(''x'', JNum 1)]]"
proof -
  have nl: "newline \<notin> set line_reply" "newline \<notin> set line_x"
    by (simp_all add: newline_def line_reply_def line_x_def)
  have ne: "split newline v \<noteq> []" for v
    by (induction v) (auto split: list.splits)
  have sp: "newline \<notin> set w \<Longrightarrow> split newline (w @ v) =
      (case split newline v of [] \<Rightarrow> [w] | u # us \<Rightarrow> (w @ u) # us)" for w v
    using ne [of v] by (induction w) (auto split: list.splits)
  have s1: "split newline line_x = [line_x]"
    using sp [OF nl(2), of "[]"] by simp
  have s2: "split newline (line_reply @ [newline] @ line_x) = [line_reply, line_x]"
    using sp [OF nl(1), of "newline # line_x"] s1 by simp
  have st: "startswith line_reply ''{''" "\<not> startswith line_reply ''ping''"
    "\<not> startswith line_reply ''.''" "startswith line_x ''{''" "\<not> startswith line_x ''ping''"
    "\<not> startswith line_x ''.''" "line_reply \<noteq> []" "line_x \<noteq> []" "line_x \<noteq> line_reply"
    by (simp_all add: startswith_def line_reply_def line_x_def)
  let ?c = "example_client"
  have r1: "receive example_env 0 event_reply ?c = (Some KeyError, ?c)"
    by (simp add: receive_def clean_up_def dict_get_def dict_del_def dict_has_def
        dict_remove_def is_service_call_def event_reply_def example_client_def)
  have r2: "receive example_env 0 event_x ?c =
      (None, ?c\<lparr>invoked := [Subscriber 1 (JStr ''s'') (JStr ''channel'') [(''x'', JNum 1)],
                Subscriber 2 (JStr ''s'') (JStr ''channel'') [(''x'', JNum 1)]]\<rparr>)"
    by (simp add: receive_def clean_up_def dict_get_def dict_del_def dict_has_def
        dict_remove_def is_service_call_def receiveChannelEvent_def lookup_key_def
        event_x_def example_client_def example_env_def)
  have ld: "json_loads example_env line_reply = Inr event_reply"
    "json_loads example_env line_x = Inr event_x"
    using st(9) by (simp_all add: example_env_def example_loads_def)
  have same: "?c\<lparr>sock := \<lparr>sock_closed = False, sock_in = [], sock_out = []\<rparr>\<rparr> = ?c"
    by (simp add: example_client_def)
  have ck: "check example_env 0
      (?c\<lparr>sock := \<lparr>sock_closed = False, sock_in = [Bytes d], sock_out = []\<rparr>\<rparr>) =
      snd (check_lines example_env 0 d (split newline d)
        (?c\<lparr>sock := \<lparr>sock_closed = False, sock_in = [], sock_out = []\<rparr>\<rparr>))" for d
    by (simp add: check_def recv_into_def)
  have l1: "check_line example_env 0 (line_reply @ [newline] @ line_x) line_reply ?c =
      (Some KeyError, ?c)"
    using st ld r1 by (simp add: check_line_def)
  have l2: "check_line example_env 0 line_x line_x ?c =
      (None, ?c\<lparr>invoked := [Subscriber 1 (JStr ''s'') (JStr ''channel'') [(''x'', JNum 1)],
                Subscriber 2 (JStr ''s'') (JStr ''channel'') [(''x'', JNum 1)]]\<rparr>)"
    using st ld r2 by (simp add: check_line_def)
  have c1: "check example_env 0
     (?c\<lparr>sock := \<lparr>sock_closed = False,
        sock_in = [Bytes (line_reply @ [newline] @ line_x)], sock_out = []\<rparr>\<rparr>) = ?c"
    by (simp only: ck same s2 check_lines.simps l1 prod.case option.case snd_conv)
  have c2: "invoked (check example_env 0
       (?c\<lparr>sock := \<lparr>sock_closed = False, sock_in = [Bytes line_x], sock_out = []\<rparr>\<rparr>)) =
       [Subscriber 1 (JStr ''s'') (JStr ''channel'') [(''x'', JNum 1)],
        Subscriber 2 (JStr ''s'') (JStr ''channel'') [(''x'', JNum 1)]]"
    by (simp only: ck same s1 check_lines.simps l2 prod.case option.case snd_conv)
       simp
  from c1 c2 show ?thesis
    by (rule conjI)
qed

subsection \<open>The dict given to \<open>call\<close>\<close>

text \<open>
  C8. After \<open>call\<close>, the caller's \<open>data\<close> has \<open>_MESSAGE_ID\<close> set to the generated id
  and \<open>_MESSAGE_HANDLE\<close> set to the call name, and every other key is as before. The id is the one under which the new call is registered and that its dict
  carries.
\<close>

theorem call_stamps_data:
  "(case call env now rnd channelName callName data timeout s of
      (r, data', s') \<Rightarrow>
        (\<forall>k. map_of data' k =
           (if k = ''_MESSAGE_ID'' then Some (JStr (uuid4 rnd))
            else if k = ''_MESSAGE_HANDLE'' then Some (JStr callName)
            else map_of data k))
        \<and> map_of (calls s') (uuid4 rnd) = Some r
        \<and> heap s' r = Some \<lparr>cr_MESSAGE_HANDLE = Some callName,
              cr_MESSAGE_ID = Some (uuid4 rnd), cr_expiration = Some (now + timeout),
              cr_response = None\<rparr>)"
  by (simp add: call_def Let_def map_of_dict_set send_def heap_internalSend
      internalSend_def sendall_def)

subsection \<open>The callback of the constructor\<close>

text \<open>
  C9. When the constructor returns, \<open>receivers\<close> has one entry: the handle with the list
  of the one callback given, whatever it is. When that callback is \<open>None\<close>, a plain event
  addressed to the handle makes \<open>receive\<close> raise \<open>TypeError\<close>: the list is there, and its
  element is called.
\<close>

theorem own_handle_holds_callback:
  assumes "OOCSI env rnd conn handle0 host port callback = Some s"
    and "map_of event ''sender'' = Some sender"
    and "map_of event ''recipient'' = Some (JStr (handle s))"
    and "dict_has ''timestamp'' event"
    and "\<not> dict_has ''_MESSAGE_HANDLE'' event"
    and "\<not> dict_has ''_MESSAGE_ID'' event"
  shows "receivers s = [(handle s, [callback])]
       \<and> (if callback = PyNone then receive env now event s = (Some TypeError, s)
          else True)"
proof -
  from constructed [OF assms(1)] have r: "receivers s = [(handle s, [callback])]"
    by simp
  have "receive env now event s = (Some TypeError, s)" if "callback = PyNone"
    using receive_plain [OF assms(2-6), of env now] r that
    by (simp add: receiveChannelEvent_def lookup_key_def)
  with r show ?thesis
    by simp
qed

theorem own_handle_holds_callback_witness:
  "OOCSI example_env (\<lambda>i. i + 3)
       (Inr \<lparr>sock_closed = False, sock_in = [Bytes ''{}''], sock_out = []\<rparr>)
       (Some ''Dev_##'') ''localhost'' 4444 PyNone = Some example_constructed
   \<and> receivers example_constructed = [(''Dev_34'', [PyNone])]
   \<and> receive example_env 0
         [(''sender'', JStr ''s''), (''recipient'', JStr ''Dev_34''), (''timestamp'', JNum 0),
          (''x'', JNum 1)] example_constructed = (Some TypeError, example_constructed)"
proof -
  let ?ev = "[(''sender'', JStr ''s''), (''recipient'', JStr ''Dev_34''),
              (''timestamp'', JNum 0), (''x'', JNum 1)]"
  have h: "fill_handle (\<lambda>i. i + 3) 0 (default_handle (Some ''Dev_##'')) = ''Dev_34''"
    by code_simp
  have w: "connected t \<Longrightarrow> wait_connected t = Some t" for t
    by (subst wait_connected.simps) simp
  have 1: "OOCSI example_env (\<lambda>i. i + 3)
       (Inr \<lparr>sock_closed = False, sock_in = [Bytes ''{}''], sock_out = []\<rparr>)
       (Some ''Dev_##'') ''localhost'' 4444 PyNone = Some example_constructed"
    unfolding OOCSI_def h Let_def
    by (simp add: init_def log_def internalSend_def sendall_def recv_into_def startswith_def
        example_env_def w example_constructed_def)
  have 2: "map_of ?ev ''sender'' = Some (JStr ''s'')"
    and 3: "map_of ?ev ''recipient'' = Some (JStr (handle example_constructed))"
    and 4: "dict_has ''timestamp'' ?ev"
    and 5: "\<not> dict_has ''_MESSAGE_HANDLE'' ?ev"
    and 6: "\<not> dict_has ''_MESSAGE_ID'' ?ev"
    by (simp_all add: dict_has_def example_constructed_def)
  from own_handle_holds_callback [OF 1 2 3 4 5 6, of 0] 1 show ?thesis
    by (simp add: example_constructed_def)
qed

end
